theory Spec2Isabelle
  imports Complex_Main "HOL-Library.Word"
begin

section \<open>The GDAL reader of vsgXchange (src/gdal/GDAL.cpp)\<close>

text \<open>
  The file under study is an adapter between the GDAL library and the image objects of
  the VulkanSceneGraph. It calls three kinds of code that it does not contain:
  \<^item> the GDAL library and the VSG library. What they compute is not known here, so their
    functions are fields of the record \<open>env\<close> (path functions, file search, opening a
    dataset), and the data they hand over is modelled by records holding exactly what
    the adapter reads from them;
  \<^item> helpers of vsgXchange itself that live in another file (\<open>dataTypes\<close>,
    \<open>createImage2D\<close>, \<open>copyRasterBandToImage\<close>, \<open>assignMetaData\<close>). They are modelled
    from the specification and marked so;
  \<^item> the logger \<open>vsg::info\<close>, modelled by a list of messages in the world state.

  The overload of \<open>read\<close> for streams gathers the bytes of the stream and calls the
  overload for a block of memory; it is left out.
\<close>

subsection \<open>Data of the GDAL library\<close>

text \<open>The enumerators of \<open>GDALDataType\<close> and their values in gdal.h.\<close>

datatype GDALDataType =
    GDT_Unknown | GDT_Byte | GDT_UInt16 | GDT_Int16 | GDT_UInt32 | GDT_Int32
  | GDT_Float32 | GDT_Float64 | GDT_CInt16 | GDT_CInt32 | GDT_CFloat32 | GDT_CFloat64

fun GDALDataType_value :: "GDALDataType \<Rightarrow> nat" where
  "GDALDataType_value GDT_Unknown = 0"
| "GDALDataType_value GDT_Byte = 1"
| "GDALDataType_value GDT_UInt16 = 2"
| "GDALDataType_value GDT_Int16 = 3"
| "GDALDataType_value GDT_UInt32 = 4"
| "GDALDataType_value GDT_Int32 = 5"
| "GDALDataType_value GDT_Float32 = 6"
| "GDALDataType_value GDT_Float64 = 7"
| "GDALDataType_value GDT_CInt16 = 8"
| "GDALDataType_value GDT_CInt32 = 9"
| "GDALDataType_value GDT_CFloat32 = 10"
| "GDALDataType_value GDT_CFloat64 = 11"

text \<open>The enumerators of \<open>GDALColorInterp\<close>; the adapter only compares with \<open>GCI_Undefined\<close>.\<close>

datatype GDALColorInterp =
    GCI_Undefined | GCI_GrayIndex | GCI_PaletteIndex | GCI_RedBand | GCI_GreenBand
  | GCI_BlueBand | GCI_AlphaBand | GCI_HueBand | GCI_SaturationBand | GCI_LightnessBand
  | GCI_CyanBand | GCI_MagentaBand | GCI_YellowBand | GCI_BlackBand
  | GCI_YCbCr_YBand | GCI_YCbCr_CbBand | GCI_YCbCr_CrBand

type_synonym Path = string

text \<open>
  A raster band is a view into one channel of an open dataset: the adapter asks it for
  its colour interpretation and its data type, and the copy helper reads its samples.
  \<open>raster b p\<close> is the sample of pixel \<open>p\<close> (row by row).
\<close>

record GDALRasterBand =
  colorInterpretation :: GDALColorInterp
  rasterDataType :: GDALDataType
  raster :: "nat \<Rightarrow> real"

text \<open>
  What the adapter reads from an open dataset. \<open>GetRasterCount\<close> is the number of
  bands and \<open>GetRasterBand i\<close> is defined for \<open>1 \<le> i \<le> GetRasterCount\<close>;
  \<open>projectionRef\<close> is \<open>None\<close> for a null pointer; \<open>geoTransform\<close> is \<open>Some\<close> of the
  six coefficients when \<open>GetGeoTransform\<close> returns \<open>CE_None\<close>.
\<close>

record GDALDataset =
  rasterBands :: "GDALRasterBand list"
  rasterXSize :: nat
  rasterYSize :: nat
  projectionRef :: "string option"
  geoTransform :: "real list option"
  metaData :: "(string \<times> string) list"

definition GetRasterCount :: "GDALDataset \<Rightarrow> nat" where
  "GetRasterCount dataset = length (rasterBands dataset)"

definition GetRasterBand :: "GDALDataset \<Rightarrow> nat \<Rightarrow> GDALRasterBand" where
  "GetRasterBand dataset i = rasterBands dataset ! (i - 1)"

subsection \<open>Data of the VSG library\<close>

record Options =
  mapRGBtoRGBAHint :: bool
  extensionHint :: Path

text \<open>
  The image object: its dimensions, the number of components of a pixel, the data type,
  the pixels (each pixel the list of its component samples, the components of one pixel
  lying together as in the interleaved buffer) and the two kinds of metadata
  (\<open>setValue\<close>, \<open>setObject\<close>).
\<close>

record Image =
  img_width :: nat
  img_height :: nat
  img_components :: nat
  img_dataType :: GDALDataType
  img_pixels :: "real list list"
  img_values :: "string \<rightharpoonup> string"
  img_objects :: "string \<rightharpoonup> real list"

type_synonym dvec4 = "real \<times> real \<times> real \<times> real"

fun dvec4_components :: "dvec4 \<Rightarrow> real list" where
  "dvec4_components (r, g, b, a) = [r, g, b, a]"

subsection \<open>The world: library calls, virtual files, log\<close>

text \<open>
  A virtual file is a buffer registered under a path of the library's in-memory file
  system. \<open>VSIFileFromMemBuffer\<close> returns a handle on it.
\<close>

record VSILFILE =
  vsi_filename :: Path
  vsi_buffer :: "8 word list"

datatype gdal_call =
    Call_initGDAL
  | Call_openSharedDataSet Path
  | Call_VSIFileFromMemBuffer Path "8 word list"
  | Call_VSIFCloseL VSILFILE

datatype message =
    Msg_multiple_types Path
  | Msg_type GDALDataType
  | Msg_types_empty Path
  | Msg_undefined_band Path nat
  | Msg_failed_numComponents Path nat
  | Msg_too_many_bands Path

text \<open>
  \<open>gdal_calls\<close> lists the calls made into the library, oldest first; \<open>vsimem\<close> lists
  the virtual files that are registered, one entry for each handle that is open;
  \<open>logged\<close> lists the messages given to \<open>vsg::info\<close>, oldest first.
\<close>

record world =
  gdal_calls :: "gdal_call list"
  vsimem :: "VSILFILE list"
  logged :: "message list"

definition info :: "message \<Rightarrow> world \<Rightarrow> world" where
  "info m s = s\<lparr>logged := logged s @ [m]\<rparr>"

definition initGDAL :: "world \<Rightarrow> world" where
  "initGDAL s = s\<lparr>gdal_calls := gdal_calls s @ [Call_initGDAL]\<rparr>"

text \<open>
  Modelled from the spec: the virtual file system belongs to the library. "registers
  the buffer as that virtual file with the geospatial library's virtual filesystem" and
  "unregisters/closes the virtual file": registering adds the file and returns its
  handle, closing the handle removes it.
\<close>

definition VSIFileFromMemBuffer :: "Path \<Rightarrow> 8 word list \<Rightarrow> world \<Rightarrow> VSILFILE \<times> world" where
  "VSIFileFromMemBuffer filename buffer s =
     (let vsFile = \<lparr>vsi_filename = filename, vsi_buffer = buffer\<rparr>
      in (vsFile, s\<lparr>gdal_calls := gdal_calls s @ [Call_VSIFileFromMemBuffer filename buffer],
                     vsimem := vsFile # vsimem s\<rparr>))"

definition VSIFCloseL :: "VSILFILE \<Rightarrow> world \<Rightarrow> world" where
  "VSIFCloseL vsFile s =
     s\<lparr>gdal_calls := gdal_calls s @ [Call_VSIFCloseL vsFile],
       vsimem := remove1 vsFile (vsimem s)\<rparr>"

subsection \<open>Outcomes and the collaborators\<close>

text \<open>
  A call returns a value or leaves by a C++ exception. The adapter has no \<open>try\<close> block
  and throws nothing itself, so an exception can only come out of a collaborator and
  then passes through the adapter. \<open>Crashed\<close> is the dereference of a null pointer.
\<close>

datatype cpp_exception = Cpp_exception string

datatype 'a outcome = Returned 'a | Thrown cpp_exception | Crashed

text \<open>
  The collaborators whose results the adapter only receives:
  \<^item> \<open>lowerCaseFileExtension\<close>, \<open>filePath\<close>, \<open>findFile\<close> of the VSG library; a path that
    is not found is the empty path;
  \<^item> \<open>openSharedDataSet\<close>, which sees the registered virtual files; \<open>None\<close> is the
    null dataset;
  \<^item> \<open>creatable\<close>: whether \<open>createImage2D\<close> delivers an image for the given width,
    height, number of components and data type.
\<close>

record env =
  lowerCaseFileExtension :: "Path \<Rightarrow> Path"
  filePath :: "Path \<Rightarrow> Path"
  findFile :: "Path \<Rightarrow> Options option \<Rightarrow> Path outcome"
  openSharedDataSet :: "VSILFILE list \<Rightarrow> Path \<Rightarrow> GDALDataset option outcome"
  creatable :: "nat \<Rightarrow> nat \<Rightarrow> nat \<Rightarrow> GDALDataType \<Rightarrow> bool"

subsection \<open>Helpers of vsgXchange outside GDAL.cpp\<close>

text \<open>
  \<open>std::set<GDALDataType>\<close> as the strictly increasing list of its elements:
  \<open>size\<close> is \<open>length\<close>, \<open>empty\<close> is \<open>= []\<close>, \<open>*begin()\<close> is \<open>hd\<close>.
\<close>

fun set_insert :: "GDALDataType \<Rightarrow> GDALDataType list \<Rightarrow> GDALDataType list" where
  "set_insert t [] = [t]"
| "set_insert t (u # us) =
     (if GDALDataType_value t < GDALDataType_value u then t # u # us
      else if GDALDataType_value u < GDALDataType_value t then u # set_insert t us
      else u # us)"

text \<open>
  Modelled from the spec: \<open>vsgXchange::dataTypes\<close> is not in GDAL.cpp. "Enumerate all
  bands' pixel data types; collect into a set."
\<close>

definition dataTypes :: "GDALDataset \<Rightarrow> GDALDataType list" where
  "dataTypes dataset = foldl (\<lambda>types band. set_insert (rasterDataType band) types) [] (rasterBands dataset)"

text \<open>
  Modelled from the spec: \<open>vsgXchange::createImage2D\<close> is not in GDAL.cpp. "allocate an
  image with (width, height, componentCount, pixelDataType, default fill)": every pixel
  of the new image holds the first \<open>numComponents\<close> components of the default. GDAL.cpp
  tests the result for null, so the helper may deliver no image; when it does so is not
  said, and is left to \<open>creatable\<close>.
\<close>

definition createImage2D :: "env \<Rightarrow> nat \<Rightarrow> nat \<Rightarrow> nat \<Rightarrow> GDALDataType \<Rightarrow> dvec4 \<Rightarrow> Image option" where
  "createImage2D e width height numComponents dataType def =
     (if creatable e width height numComponents dataType
      then Some \<lparr>img_width = width, img_height = height, img_components = numComponents,
                 img_dataType = dataType,
                 img_pixels = replicate (width * height) (take numComponents (dvec4_components def)),
                 img_values = Map.empty, img_objects = Map.empty\<rparr>
      else None)"

text \<open>
  Modelled from the spec: \<open>vsgXchange::copyRasterBandToImage\<close> is not in GDAL.cpp.
  "copy its full-resolution raster data into the corresponding interleaved component
  slot of the image buffer": component \<open>component\<close> of pixel \<open>p\<close> becomes the band's
  sample at \<open>p\<close>, the other components stay.
\<close>

definition copyRasterBandToImage :: "GDALRasterBand \<Rightarrow> Image \<Rightarrow> nat \<Rightarrow> Image" where
  "copyRasterBandToImage band img component =
     img\<lparr>img_pixels := map (\<lambda>(p, px). px[component := raster band p]) (enumerate 0 (img_pixels img))\<rparr>"

text \<open>
  Modelled from the spec: \<open>vsgXchange::assignMetaData\<close> is not in GDAL.cpp. "Attach
  dataset-level metadata (arbitrary key/value pairs exposed by the geospatial library)
  onto the image's metadata attachment set."
\<close>

definition assignMetaData :: "GDALDataset \<Rightarrow> Image \<Rightarrow> Image" where
  "assignMetaData dataset img =
     img\<lparr>img_values := foldl (\<lambda>m (k, v). m(k \<mapsto> v)) (img_values img) (metaData dataset)\<rparr>"

subsection \<open>GDAL::Implementation::read(filename, options)\<close>

text \<open>Lines 160 to 174: the loop over the bands \<open>i = 1 .. GetRasterCount\<close>.\<close>

function selectBands ::
  "Path \<Rightarrow> GDALDataset \<Rightarrow> nat \<Rightarrow> GDALRasterBand list \<Rightarrow> world \<Rightarrow> GDALRasterBand list \<times> world" where
  "selectBands filename dataset i bands s =
     (if i \<le> GetRasterCount dataset
      then (let band = GetRasterBand dataset i;
                classification = colorInterpretation band
            in if classification \<noteq> GCI_Undefined
               then selectBands filename dataset (i + 1) (bands @ [band]) s
               else selectBands filename dataset (i + 1) bands (info (Msg_undefined_band filename i) s))
      else (bands, s))"
  by pat_completeness auto
termination
  by (relation "measure (\<lambda>(filename, dataset, i, bands, s). Suc (GetRasterCount dataset) - i)") auto

declare selectBands.simps [simp del]

text \<open>Lines 202 to 205: the loop over \<open>component = 0 ..< rasterBands.size()\<close>.\<close>

function copyBands :: "GDALRasterBand list \<Rightarrow> nat \<Rightarrow> Image \<Rightarrow> Image" where
  "copyBands bands component img =
     (if component < length bands
      then copyBands bands (component + 1) (copyRasterBandToImage (bands ! component) img component)
      else img)"
  by pat_completeness auto
termination
  by (relation "measure (\<lambda>(bands, component, img). length bands - component)") auto

declare copyBands.simps [simp del]

text \<open>Lines 145 to 148: one message for each type of the set.\<close>

definition infoTypes :: "GDALDataType list \<Rightarrow> world \<Rightarrow> world" where
  "infoTypes types s = foldl (\<lambda>s' t. info (Msg_type t) s') s types"

text \<open>Line 183: the hint is on when there are no options.\<close>

definition hintOf :: "Options option \<Rightarrow> bool" where
  "hintOf options = (case options of None \<Rightarrow> True | Some opts \<Rightarrow> mapRGBtoRGBAHint opts)"

text \<open>Lines 184 to 188: three components become four when the hint is on.\<close>

definition promote :: "bool \<Rightarrow> nat \<Rightarrow> nat" where
  "promote hint numComponents = (if hint \<and> numComponents = 3 then 4 else numComponents)"

text \<open>Lines 207 to 218: metadata, projection and geotransform.\<close>

definition attachMetaData :: "GDALDataset \<Rightarrow> Image \<Rightarrow> Image" where
  "attachMetaData dataset img =
     (let img1 = assignMetaData dataset img;
          img2 = (case projectionRef dataset of
                      None \<Rightarrow> img1
                    | Some ref \<Rightarrow> if length ref > 0
                                  then img1\<lparr>img_values := (img_values img1)(''ProjectionRef'' \<mapsto> ref)\<rparr>
                                  else img1)
      in case geoTransform dataset of
           None \<Rightarrow> img2
         | Some transform \<Rightarrow> img2\<lparr>img_objects := (img_objects img2)(''GeoTransform'' \<mapsto> transform)\<rparr>)"

text \<open>Lines 141 to 220: from the open dataset to the image. \<open>None\<close> is the empty result.\<close>

definition readDataset ::
  "env \<Rightarrow> Path \<Rightarrow> Options option \<Rightarrow> GDALDataset \<Rightarrow> world \<Rightarrow> Image option \<times> world" where
  "readDataset e filename options dataset s =
     (let types = dataTypes dataset in
      if length types > 1 then (None, infoTypes types (info (Msg_multiple_types filename) s))
      else if types = [] then (None, info (Msg_types_empty filename) s)
      else
        let dataType = hd types;
            (bands, s1) = selectBands filename dataset 1 [] s;
            numComponents = length bands
        in if numComponents = 0 then (None, info (Msg_failed_numComponents filename numComponents) s1)
           else
             let numComponents' = promote (hintOf options) numComponents
             in if numComponents' > 4 then (None, info (Msg_too_many_bands filename) s1)
                else
                  let width = rasterXSize dataset;
                      height = rasterYSize dataset
                  in case createImage2D e width height numComponents' dataType (0, 0, 0, 1) of
                       None \<Rightarrow> (None, s1)
                     | Some img \<Rightarrow> (Some (attachMetaData dataset (copyBands bands 0 img)), s1))"

text \<open>Line 127: the extensions of the native formats.\<close>

definition nativeExtension :: "Path \<Rightarrow> bool" where
  "nativeExtension ext =
     (ext = ''.vsgb'' \<or> ext = ''.vsgt'' \<or> ext = ''.osgb'' \<or> ext = ''.osgt'' \<or> ext = ''.osg'' \<or> ext = ''.tile'')"

text \<open>Lines 123 to 221. The first component is the result, \<open>Returned None\<close> the empty one.\<close>

definition read :: "env \<Rightarrow> Path \<Rightarrow> Options option \<Rightarrow> world \<Rightarrow> Image option outcome \<times> world" where
  "read e filename options s =
     (let ext = lowerCaseFileExtension e filename in
      if nativeExtension ext then (Returned None, s)
      else
        (case (if filePath e filename = ''/vsimem'' then Returned filename
               else findFile e filename options) of
           Thrown x \<Rightarrow> (Thrown x, s)
         | Crashed \<Rightarrow> (Crashed, s)
         | Returned filenameToUse \<Rightarrow>
             if filenameToUse = [] then (Returned None, s)
             else
               (let s1 = initGDAL s;
                    s2 = s1\<lparr>gdal_calls := gdal_calls s1 @ [Call_openSharedDataSet filenameToUse]\<rparr>
                in (case openSharedDataSet e (vsimem s1) filenameToUse of
                      Thrown x \<Rightarrow> (Thrown x, s2)
                    | Crashed \<Rightarrow> (Crashed, s2)
                    | Returned dataset_ptr \<Rightarrow>
                        (case dataset_ptr of
                           None \<Rightarrow> (Returned None, s2)
                         | Some dataset \<Rightarrow>
                             (let (result, s3) = readDataset e filename options dataset s2
                              in (Returned result, s3)))))))"

subsection \<open>GDAL::Implementation::read(ptr, size, options)\<close>

text \<open>
  Lines 247 to 260. The block of memory \<open>ptr\<close>, \<open>size\<close> is the list of its bytes.
  Line 250 reads a member through \<open>options\<close> without testing the pointer. Line 257 is
  reached when the call of line 255 returns; the function has no handler and no guard
  object, so an exception of that call leaves the function at line 255.
\<close>

definition read_memory :: "env \<Rightarrow> 8 word list \<Rightarrow> Options option \<Rightarrow> world \<Rightarrow> Image option outcome \<times> world" where
  "read_memory e buffer options s =
     (case options of
        None \<Rightarrow> (Crashed, s)
      | Some opts \<Rightarrow>
          (let temp_filename = ''/vsimem/temp'' @ extensionHint opts;
               (vsFile, s1) = VSIFileFromMemBuffer temp_filename buffer s;
               (result, s2) = read e temp_filename options s1
           in (case result of
                 Returned r \<Rightarrow> (Returned r, VSIFCloseL vsFile s2)
               | Thrown x \<Rightarrow> (Thrown x, s2)
               | Crashed \<Rightarrow> (Crashed, s2))))"

subsection \<open>GDAL::getFeatures\<close>

text \<open>
  The members of \<open>std::string\<close> that the function uses. \<open>None\<close> is \<open>npos\<close>, as a
  result and as the count given to \<open>substr\<close>.
\<close>

primrec find_first :: "(char \<Rightarrow> bool) \<Rightarrow> string \<Rightarrow> nat option" where
  "find_first P [] = None"
| "find_first P (c # cs) = (if P c then Some 0 else map_option Suc (find_first P cs))"

definition find_first_not_of :: "string \<Rightarrow> string \<Rightarrow> nat \<Rightarrow> nat option" where
  "find_first_not_of str chars pos =
     map_option (\<lambda>i. pos + i) (find_first (\<lambda>c. c \<notin> set chars) (drop pos str))"

definition find_first_of :: "string \<Rightarrow> string \<Rightarrow> nat \<Rightarrow> nat option" where
  "find_first_of str chars pos =
     map_option (\<lambda>i. pos + i) (find_first (\<lambda>c. c \<in> set chars) (drop pos str))"

text \<open>\<open>substr\<close> throws when \<open>pos\<close> is beyond the end; the function never calls it so.\<close>

definition substr :: "string \<Rightarrow> nat \<Rightarrow> nat option \<Rightarrow> string" where
  "substr str pos count = (case count of None \<Rightarrow> drop pos str | Some n \<Rightarrow> take n (drop pos str))"

text \<open>
  \<open>vsg::ReaderWriter::FeatureMask\<close> is a mask of bits; \<open>READ_FILENAME\<close> is bit 0.
  Of \<open>Features\<close> the function writes the map from extensions to masks.
\<close>

type_synonym FeatureMask = nat

definition READ_FILENAME :: FeatureMask where
  "READ_FILENAME = 1"

record Features =
  extensionFeatureMap :: "Path \<rightharpoonup> FeatureMask"

text \<open>
  Of a driver the function reads two metadata items, each a string or a null pointer.
\<close>

record GDALDriver =
  DCAP_RASTER :: "string option"
  DMD_EXTENSIONS :: "string option"

definition dotPrefix :: string where
  "dotPrefix = ''.''"

definition rasterFeatureMask :: FeatureMask where
  "rasterFeatureMask = READ_FILENAME"

definition setFeature :: "Path \<Rightarrow> Features \<Rightarrow> Features" where
  "setFeature key features =
     features\<lparr>extensionFeatureMap := (extensionFeatureMap features)(key \<mapsto> rasterFeatureMask)\<rparr>"

lemma find_first_less: "find_first P cs = Some i \<Longrightarrow> i < length cs"
  by (induction cs arbitrary: i) (auto split: if_splits)

lemma find_first_of_bounds:
  "find_first_of str chars pos = Some i \<Longrightarrow> pos \<le> i \<and> i < length str"
  by (auto simp: find_first_of_def dest!: find_first_less)

lemma find_first_not_of_bounds:
  "find_first_not_of str chars pos = Some i \<Longrightarrow> pos \<le> i \<and> i < length str"
  by (auto simp: find_first_not_of_def dest!: find_first_less)

text \<open>Lines 88 to 108: the loop \<open>for (;;)\<close> over one string of extensions.\<close>

function scanExtensions :: "string \<Rightarrow> nat \<Rightarrow> Features \<Rightarrow> Features" where
  "scanExtensions extensions start_pos features =
     (case find_first_not_of extensions '' .'' start_pos of
        None \<Rightarrow> features
      | Some start_pos1 \<Rightarrow>
          (case find_first_of extensions '' /'' start_pos1 of
             Some delimiter_pos \<Rightarrow>
               (if delimiter_pos + 1 = length extensions
                then setFeature (dotPrefix @ substr extensions start_pos1 (Some (delimiter_pos - start_pos1))) features
                else scanExtensions extensions (delimiter_pos + 1)
                       (setFeature (dotPrefix @ substr extensions start_pos1 (Some (delimiter_pos - start_pos1))) features))
           | None \<Rightarrow> setFeature (dotPrefix @ substr extensions start_pos1 None) features))"
  by pat_completeness auto
termination
proof (relation "measure (\<lambda>(extensions, start_pos, features). length extensions - start_pos)")
  fix extensions :: string and start_pos start_pos1 delimiter_pos :: nat and features :: Features
  assume a: "find_first_not_of extensions '' .'' start_pos = Some start_pos1"
    and b: "find_first_of extensions '' /'' start_pos1 = Some delimiter_pos"
  from a have "start_pos \<le> start_pos1" by (simp add: find_first_not_of_bounds)
  moreover from b have "start_pos1 \<le> delimiter_pos \<and> delimiter_pos < length extensions"
    by (simp add: find_first_of_bounds)
  ultimately show "((extensions, delimiter_pos + 1,
      setFeature (dotPrefix @ substr extensions start_pos1 (Some (delimiter_pos - start_pos1))) features),
      (extensions, start_pos, features))
    \<in> measure (\<lambda>(extensions, start_pos, features). length extensions - start_pos)"
    by auto
qed simp

declare scanExtensions.simps [simp del]

text \<open>Lines 77 to 110: the loop over the drivers \<open>i = 0 ..< driverCount\<close>.\<close>

function scanDrivers :: "GDALDriver list \<Rightarrow> nat \<Rightarrow> Features \<Rightarrow> Features" where
  "scanDrivers driverManager i features =
     (if i < length driverManager
      then (let driver = driverManager ! i;
                raster_meta = DCAP_RASTER driver;
                extensions_meta = DMD_EXTENSIONS driver
            in if raster_meta \<noteq> None \<and> extensions_meta \<noteq> None
               then scanDrivers driverManager (i + 1) (scanExtensions (the extensions_meta) 0 features)
               else scanDrivers driverManager (i + 1) features)
      else features)"
  by pat_completeness auto
termination
  by (relation "measure (\<lambda>(driverManager, i, features). length driverManager - i)") auto

declare scanDrivers.simps [simp del]

text \<open>
  Lines 66 to 113. \<open>driverManager\<close> lists the drivers that are registered once
  \<open>initGDAL\<close> has run. The map of \<open>features\<close> is updated in place; the result is the
  returned flag with the updated \<open>features\<close>.
\<close>

definition getFeatures :: "GDALDriver list \<Rightarrow> Features \<Rightarrow> world \<Rightarrow> (bool \<times> Features) \<times> world" where
  "getFeatures driverManager features s =
     (let s1 = initGDAL s
      in ((True, scanDrivers driverManager 0 features), s1))"

subsection \<open>The contributing bands, as the specification names them\<close>

text \<open>
  The specification speaks of the usable, or contributing, bands of a dataset: those
  whose colour interpretation is not "undefined", in band order. \<open>undefinedBands\<close>
  are the numbers (from 1) of the other bands.
\<close>

definition usableBands :: "GDALDataset \<Rightarrow> GDALRasterBand list" where
  "usableBands dataset = filter (\<lambda>band. colorInterpretation band \<noteq> GCI_Undefined) (rasterBands dataset)"

definition undefinedBands :: "GDALDataset \<Rightarrow> nat list" where
  "undefinedBands dataset =
     filter (\<lambda>i. colorInterpretation (GetRasterBand dataset i) = GCI_Undefined) [1..<Suc (GetRasterCount dataset)]"

subsection \<open>The dataset a read opens\<close>

text \<open>
  \<open>opensDataset e filename options s dataset\<close>: the read of \<open>filename\<close> passes
  lines 126 to 139 and line 135 delivers \<open>dataset\<close>. \<open>opened\<close> is the world
  after line 135.
\<close>

definition opensDataset :: "env \<Rightarrow> Path \<Rightarrow> Options option \<Rightarrow> world \<Rightarrow> GDALDataset \<Rightarrow> bool" where
  "opensDataset e filename options s dataset =
     (\<not> nativeExtension (lowerCaseFileExtension e filename) \<and>
      (case (if filePath e filename = ''/vsimem'' then Returned filename
             else findFile e filename options) of
         Returned filenameToUse \<Rightarrow>
           filenameToUse \<noteq> [] \<and> openSharedDataSet e (vsimem s) filenameToUse = Returned (Some dataset)
       | Thrown x \<Rightarrow> False
       | Crashed \<Rightarrow> False))"

definition opened :: "env \<Rightarrow> Path \<Rightarrow> Options option \<Rightarrow> world \<Rightarrow> world" where
  "opened e filename options s =
     (case (if filePath e filename = ''/vsimem'' then Returned filename
            else findFile e filename options) of
        Returned filenameToUse \<Rightarrow>
          s\<lparr>gdal_calls := gdal_calls s @ [Call_initGDAL, Call_openSharedDataSet filenameToUse]\<rparr>
      | Thrown x \<Rightarrow> s
      | Crashed \<Rightarrow> s)"

subsection \<open>Reading a result\<close>

text \<open>
  \<open>emptyResult\<close> holds of the empty result only; \<open>producedImage\<close> is the image of a
  result, if it has one.
\<close>

definition emptyResult :: "Image option outcome \<Rightarrow> bool" where
  "emptyResult result = (case result of Returned None \<Rightarrow> True | _ \<Rightarrow> False)"

definition producedImage :: "Image option outcome \<Rightarrow> Image option" where
  "producedImage result = (case result of Returned r \<Rightarrow> r | Thrown x \<Rightarrow> None | Crashed \<Rightarrow> None)"

subsection \<open>Letters in lower case\<close>

text \<open>
  \<open>tolower\<close> of the C locale: the letters A to Z become a to z, every other character
  stays. Two strings are the same up to case when they agree after \<open>tolower\<close>.
\<close>

definition tolower :: "char \<Rightarrow> char" where
  "tolower c =
     (case map_of (zip ''ABCDEFGHIJKLMNOPQRSTUVWXYZ'' ''abcdefghijklmnopqrstuvwxyz'') c of
        Some l \<Rightarrow> l
      | None \<Rightarrow> c)"

definition sameIgnoringCase :: "string \<Rightarrow> string \<Rightarrow> bool" where
  "sameIgnoringCase a b = (map tolower a = map tolower b)"

subsection \<open>The extension of a path in lower case\<close>

text \<open>
  Modelled from the call of line 126: \<open>vsg::lowerCaseFileExtension\<close> belongs to the
  VSG library and is not in GDAL.cpp. The model is what the name of the function says.
  The extension of a path is what starts at the last dot of its last component, the
  dot included, and is empty when that component has no dot; the function returns the
  extension with \<open>tolower\<close> applied to each character. \<open>withLowerCaseFileExtension\<close>
  puts the function into an environment and leaves the other collaborators as they are.
\<close>

definition vsg_fileExtension :: "Path \<Rightarrow> Path" where
  "vsg_fileExtension path =
     (let name = rev (takeWhile (\<lambda>c. c \<noteq> CHR ''/'') (rev path))
      in if CHR ''.'' \<in> set name then CHR ''.'' # rev (takeWhile (\<lambda>c. c \<noteq> CHR ''.'') (rev name)) else [])"

definition vsg_lowerCaseFileExtension :: "Path \<Rightarrow> Path" where
  "vsg_lowerCaseFileExtension path = map tolower (vsg_fileExtension path)"

definition withLowerCaseFileExtension :: "env \<Rightarrow> env" where
  "withLowerCaseFileExtension e = e\<lparr>lowerCaseFileExtension := vsg_lowerCaseFileExtension\<rparr>"

subsection \<open>An environment for the examples\<close>

text \<open>
  The examples need collaborators that compute. These stand in for the libraries: the
  directory of a path is what precedes its last slash, its extension in lower case is
  as above, the files that exist are those of a table from paths to datasets, a
  registered virtual file is decoded by \<open>decode\<close>, and every image can be created or
  none.
\<close>

definition exampleFilePath :: "Path \<Rightarrow> Path" where
  "exampleFilePath path =
     (if CHR ''/'' \<in> set path then rev (tl (dropWhile (\<lambda>c. c \<noteq> CHR ''/'') (rev path))) else [])"

definition exampleEnv ::
  "(Path \<times> GDALDataset) list \<Rightarrow> (8 word list \<Rightarrow> GDALDataset option) \<Rightarrow> bool \<Rightarrow> env" where
  "exampleEnv files decode canCreate =
     \<lparr>lowerCaseFileExtension = (\<lambda>path. map tolower (vsg_fileExtension path)),
      filePath = exampleFilePath,
      findFile = (\<lambda>path options. Returned (if path \<in> set (map fst files) then path else [])),
      openSharedDataSet = (\<lambda>registered path.
         Returned (case find (\<lambda>vsFile. vsi_filename vsFile = path) registered of
                     Some vsFile \<Rightarrow> decode (vsi_buffer vsFile)
                   | None \<Rightarrow> map_of files path)),
      creatable = (\<lambda>width height numComponents dataType. canCreate)\<rparr>"

text \<open>An environment in which opening a dataset runs out of memory.\<close>

definition throwingEnv :: env where
  "throwingEnv =
     (exampleEnv [] (\<lambda>buffer. None) True)
       \<lparr>openSharedDataSet := (\<lambda>registered path. Thrown (Cpp_exception ''std::bad_alloc''))\<rparr>"

definition exampleWorld :: world where
  "exampleWorld = \<lparr>gdal_calls = [], vsimem = [], logged = []\<rparr>"

text \<open>
  Datasets of two pixels. The sample of pixel \<open>p\<close> in an example band is \<open>v + p\<close>.
\<close>

definition exampleBand :: "GDALColorInterp \<Rightarrow> GDALDataType \<Rightarrow> real \<Rightarrow> GDALRasterBand" where
  "exampleBand interp dataType v =
     \<lparr>colorInterpretation = interp, rasterDataType = dataType, raster = (\<lambda>p. v + real p)\<rparr>"

definition exampleDataset :: "GDALRasterBand list \<Rightarrow> GDALDataset" where
  "exampleDataset bands =
     \<lparr>rasterBands = bands, rasterXSize = 2, rasterYSize = 1, projectionRef = None,
      geoTransform = None, metaData = []\<rparr>"

definition rgbDataset :: GDALDataset where
  "rgbDataset = exampleDataset [exampleBand GCI_RedBand GDT_Byte 10, exampleBand GCI_GreenBand GDT_Byte 20,
                                exampleBand GCI_BlueBand GDT_Byte 30]"

definition fiveBandDataset :: GDALDataset where
  "fiveBandDataset = exampleDataset (replicate 5 (exampleBand GCI_GrayIndex GDT_Byte 0))"

definition maskedDataset :: GDALDataset where
  "maskedDataset = exampleDataset [exampleBand GCI_Undefined GDT_Byte 50, exampleBand GCI_GrayIndex GDT_Byte 70]"

definition mixedDataset :: GDALDataset where
  "mixedDataset = exampleDataset [exampleBand GCI_Undefined GDT_Int16 50, exampleBand GCI_GrayIndex GDT_Byte 70]"

definition grayDataset :: GDALDataset where
  "grayDataset = exampleDataset [exampleBand GCI_GrayIndex GDT_Int16 100]"

text \<open>A decoder that knows a block of memory by its first two bytes.\<close>

definition tiffDecoder :: "8 word list \<Rightarrow> GDALDataset option" where
  "tiffDecoder buffer = (if take 2 buffer = [73, 73] then Some grayDataset else None)"

definition noHintOptions :: Options where
  "noHintOptions = \<lparr>mapRGBtoRGBAHint = True, extensionHint = []\<rparr>"


text \<open>Two drivers, and a map of features that is empty.\<close>

definition exampleDriver :: GDALDriver where
  "exampleDriver = \<lparr>DCAP_RASTER = Some ''YES'', DMD_EXTENSIONS = Some ''tif .TIFF/png''\<rparr>"

definition vectorDriver :: GDALDriver where
  "vectorDriver = \<lparr>DCAP_RASTER = None, DMD_EXTENSIONS = Some ''shp''\<rparr>"

definition noFeatures :: Features where
  "noFeatures = \<lparr>extensionFeatureMap = Map.empty\<rparr>"

section \<open>Properties\<close>

subsection \<open>The set of data types\<close>

lemma GDALDataType_value_inj: "GDALDataType_value a = GDALDataType_value b \<Longrightarrow> a = b"
  by (cases a; cases b; simp)

lemma set_set_insert: "set (set_insert t us) = insert t (set us)"
proof (induction us)
  case Nil
  show ?case by simp
next
  case (Cons u us)
  show ?case
  proof (cases "GDALDataType_value t < GDALDataType_value u")
    case True
    then show ?thesis by simp
  next
    case False
    show ?thesis
    proof (cases "GDALDataType_value u < GDALDataType_value t")
      case True
      with False Cons show ?thesis by auto
    next
      case ge: False
      with False have "GDALDataType_value t = GDALDataType_value u" by simp
      then have "t = u" by (rule GDALDataType_value_inj)
      with False ge show ?thesis by auto
    qed
  qed
qed

lemma sorted_set_insert:
  "sorted_wrt (<) (map GDALDataType_value us) \<Longrightarrow> sorted_wrt (<) (map GDALDataType_value (set_insert t us))"
  by (induction us) (auto simp: set_set_insert)

lemma foldl_set_insert:
  "set (foldl (\<lambda>types band. set_insert (rasterDataType band) types) acc bands) = set acc \<union> rasterDataType ` set bands"
  by (induction bands arbitrary: acc) (auto simp: set_set_insert)

lemma foldl_sorted_insert:
  "sorted_wrt (<) (map GDALDataType_value acc) \<Longrightarrow>
   sorted_wrt (<) (map GDALDataType_value (foldl (\<lambda>types band. set_insert (rasterDataType band) types) acc bands))"
  by (induction bands arbitrary: acc) (auto simp: sorted_set_insert)

lemma set_dataTypes: "set (dataTypes dataset) = rasterDataType ` set (rasterBands dataset)"
  by (simp add: dataTypes_def foldl_set_insert)

lemma distinct_dataTypes: "distinct (dataTypes dataset)"
proof -
  have "sorted_wrt (<) (map GDALDataType_value (dataTypes dataset))"
    unfolding dataTypes_def by (rule foldl_sorted_insert) simp
  then have "distinct (map GDALDataType_value (dataTypes dataset))"
    by (simp add: strict_sorted_iff)
  then show ?thesis by (simp add: distinct_map)
qed

lemma length_dataTypes: "length (dataTypes dataset) = card (rasterDataType ` set (rasterBands dataset))"
  using distinct_card [OF distinct_dataTypes, of dataset] by (simp add: set_dataTypes)

lemma selectBands_eq:
  "1 \<le> i \<Longrightarrow> selectBands filename dataset i bands s =
     (bands @ filter (\<lambda>band. colorInterpretation band \<noteq> GCI_Undefined) (drop (i - 1) (rasterBands dataset)),
      s\<lparr>logged := logged s @ map (Msg_undefined_band filename)
           (filter (\<lambda>j. colorInterpretation (GetRasterBand dataset j) = GCI_Undefined) [i..<Suc (GetRasterCount dataset)])\<rparr>)"
proof (induction filename dataset i bands s rule: selectBands.induct)
  case (1 filename dataset i bands s)
  show ?case
  proof (cases "i \<le> GetRasterCount dataset")
    case False
    then show ?thesis
      by (subst selectBands.simps) (simp add: GetRasterCount_def)
  next
    case True
    with "1.prems" have d: "drop (i - Suc 0) (rasterBands dataset) = GetRasterBand dataset i # drop i (rasterBands dataset)"
      by (simp add: GetRasterCount_def GetRasterBand_def Cons_nth_drop_Suc [symmetric])
    from True have u: "[i..<Suc (GetRasterCount dataset)] = i # [Suc i..<Suc (GetRasterCount dataset)]"
      by (simp add: upt_conv_Cons)
    show ?thesis
    proof (cases "colorInterpretation (GetRasterBand dataset i) \<noteq> GCI_Undefined")
      case usable: True
      have "selectBands filename dataset i bands s = selectBands filename dataset (i + 1) (bands @ [GetRasterBand dataset i]) s"
        using True usable by (subst selectBands.simps) simp
      also have "\<dots> = ((bands @ [GetRasterBand dataset i]) @ filter (\<lambda>band. colorInterpretation band \<noteq> GCI_Undefined) (drop (i + 1 - 1) (rasterBands dataset)),
         s\<lparr>logged := logged s @ map (Msg_undefined_band filename)
           (filter (\<lambda>j. colorInterpretation (GetRasterBand dataset j) = GCI_Undefined) [i + 1..<Suc (GetRasterCount dataset)])\<rparr>)"
        using True usable by (intro "1.IH"(1)) auto
      finally show ?thesis using usable by (simp add: d u del: upt_Suc)
    next
      case undefined: False
      have "selectBands filename dataset i bands s = selectBands filename dataset (i + 1) bands (info (Msg_undefined_band filename i) s)"
        using True undefined by (subst selectBands.simps) simp
      also have "\<dots> = (bands @ filter (\<lambda>band. colorInterpretation band \<noteq> GCI_Undefined) (drop (i + 1 - 1) (rasterBands dataset)),
         (info (Msg_undefined_band filename i) s)\<lparr>logged := logged (info (Msg_undefined_band filename i) s) @ map (Msg_undefined_band filename)
           (filter (\<lambda>j. colorInterpretation (GetRasterBand dataset j) = GCI_Undefined) [i + 1..<Suc (GetRasterCount dataset)])\<rparr>)"
        using True undefined by (intro "1.IH"(2)) auto
      finally show ?thesis using undefined by (simp add: d u info_def del: upt_Suc)
    qed
  qed
qed

lemma selectBands_usableBands:
  "selectBands filename dataset 1 [] s =
     (usableBands dataset, s\<lparr>logged := logged s @ map (Msg_undefined_band filename) (undefinedBands dataset)\<rparr>)"
  by (simp add: selectBands_eq usableBands_def undefinedBands_def)

subsection \<open>Reading an opened dataset\<close>

lemma read_opensDataset:
  assumes "opensDataset e filename options s dataset"
  shows "read e filename options s =
           (Returned (fst (readDataset e filename options dataset (opened e filename options s))),
            snd (readDataset e filename options dataset (opened e filename options s)))"
proof -
  define r where "r = (if filePath e filename = ''/vsimem'' then Returned filename
                       else findFile e filename options)"
  from assms have native: "\<not> nativeExtension (lowerCaseFileExtension e filename)"
    by (simp add: opensDataset_def)
  from assms have "case r of
      Returned filenameToUse \<Rightarrow>
        filenameToUse \<noteq> [] \<and> openSharedDataSet e (vsimem s) filenameToUse = Returned (Some dataset)
    | Thrown x \<Rightarrow> False | Crashed \<Rightarrow> False"
    by (simp add: opensDataset_def r_def)
  then obtain filenameToUse where r: "r = Returned filenameToUse" and "filenameToUse \<noteq> []"
    and "openSharedDataSet e (vsimem s) filenameToUse = Returned (Some dataset)"
    by (cases r) simp_all
  then show ?thesis
    using native unfolding read_def opened_def Let_def r_def [symmetric]
    by (simp add: initGDAL_def split: prod.splits)
qed

subsection \<open>The pixels\<close>

lemma copyRasterBandToImage_fields [simp]:
  "img_width (copyRasterBandToImage band img c) = img_width img"
  "img_height (copyRasterBandToImage band img c) = img_height img"
  "img_components (copyRasterBandToImage band img c) = img_components img"
  "img_dataType (copyRasterBandToImage band img c) = img_dataType img"
  "img_values (copyRasterBandToImage band img c) = img_values img"
  "img_objects (copyRasterBandToImage band img c) = img_objects img"
  "length (img_pixels (copyRasterBandToImage band img c)) = length (img_pixels img)"
  by (simp_all add: copyRasterBandToImage_def)

lemma copyRasterBandToImage_pixel:
  "p < length (img_pixels img) \<Longrightarrow>
   img_pixels (copyRasterBandToImage band img c) ! p = (img_pixels img ! p)[c := raster band p]"
  by (simp add: copyRasterBandToImage_def nth_enumerate_eq)

lemma copyBands_fields [simp]:
  "img_width (copyBands bands k img) = img_width img"
  "img_height (copyBands bands k img) = img_height img"
  "img_components (copyBands bands k img) = img_components img"
  "img_dataType (copyBands bands k img) = img_dataType img"
  "img_values (copyBands bands k img) = img_values img"
  "img_objects (copyBands bands k img) = img_objects img"
  "length (img_pixels (copyBands bands k img)) = length (img_pixels img)"
  by (induction bands k img rule: copyBands.induct; subst copyBands.simps; simp)+

lemma copyBands_pixel_length:
  "p < length (img_pixels img) \<Longrightarrow>
   length (img_pixels (copyBands bands k img) ! p) = length (img_pixels img ! p)"
  by (induction bands k img rule: copyBands.induct; subst copyBands.simps)
     (simp add: copyRasterBandToImage_pixel)

lemma copyBands_pixel:
  "p < length (img_pixels img) \<Longrightarrow> c < length (img_pixels img ! p) \<Longrightarrow>
   img_pixels (copyBands bands k img) ! p ! c =
     (if k \<le> c \<and> c < length bands then raster (bands ! c) p else img_pixels img ! p ! c)"
proof (induction bands k img rule: copyBands.induct)
  case (1 bands k img)
  show ?case
  proof (cases "k < length bands")
    case False
    then show ?thesis by (subst copyBands.simps) simp
  next
    case True
    let ?img = "copyRasterBandToImage (bands ! k) img k"
    have "img_pixels (copyBands bands k img) ! p ! c = img_pixels (copyBands bands (k + 1) ?img) ! p ! c"
      using True by (subst copyBands.simps) simp
    also have "\<dots> = (if k + 1 \<le> c \<and> c < length bands then raster (bands ! c) p else img_pixels ?img ! p ! c)"
      using True "1.prems" by (intro "1.IH") (simp_all add: copyRasterBandToImage_pixel)
    also have "\<dots> = (if k \<le> c \<and> c < length bands then raster (bands ! c) p else img_pixels img ! p ! c)"
    proof (cases "c = k")
      case True
      with \<open>k < length bands\<close> "1.prems" show ?thesis
        by (simp add: copyRasterBandToImage_pixel)
    next
      case False
      with "1.prems" show ?thesis
        by (auto simp: copyRasterBandToImage_pixel)
    qed
    finally show ?thesis .
  qed
qed

lemma attachMetaData_fields [simp]:
  "img_width (attachMetaData dataset img) = img_width img"
  "img_height (attachMetaData dataset img) = img_height img"
  "img_components (attachMetaData dataset img) = img_components img"
  "img_dataType (attachMetaData dataset img) = img_dataType img"
  "img_pixels (attachMetaData dataset img) = img_pixels img"
  by (simp_all add: attachMetaData_def assignMetaData_def Let_def split: option.splits)

text \<open>What a successful translation of a dataset went through.\<close>

lemma readDataset_Some:
  assumes "readDataset e filename options dataset s = (Some img, s')"
  shows "length (dataTypes dataset) = 1"
    and "usableBands dataset \<noteq> []"
    and "promote (hintOf options) (length (usableBands dataset)) \<le> 4"
    and "creatable e (rasterXSize dataset) (rasterYSize dataset)
           (promote (hintOf options) (length (usableBands dataset))) (hd (dataTypes dataset))"
    and "createImage2D e (rasterXSize dataset) (rasterYSize dataset)
           (promote (hintOf options) (length (usableBands dataset))) (hd (dataTypes dataset)) (0, 0, 0, 1) = Some blank
         \<Longrightarrow> img = attachMetaData dataset (copyBands (usableBands dataset) 0 blank)"
    and "s' = s\<lparr>logged := logged s @ map (Msg_undefined_band filename) (undefinedBands dataset)\<rparr>"
  using assms unfolding readDataset_def Let_def selectBands_usableBands
  by (cases "dataTypes dataset"; auto simp: createImage2D_def split: if_splits)+

lemma readDataset_None_iff:
  "fst (readDataset e filename options dataset s) = None \<longleftrightarrow>
     length (dataTypes dataset) \<noteq> 1 \<or> usableBands dataset = [] \<or>
     4 < promote (hintOf options) (length (usableBands dataset)) \<or>
     \<not> creatable e (rasterXSize dataset) (rasterYSize dataset)
           (promote (hintOf options) (length (usableBands dataset))) (hd (dataTypes dataset))"
  unfolding readDataset_def Let_def selectBands_usableBands
  by (cases "dataTypes dataset") (auto simp: createImage2D_def)

lemma emptyResult_iff: "emptyResult result \<longleftrightarrow> result = Returned None"
  by (simp add: emptyResult_def split: outcome.splits option.splits)

lemma producedImage_Some: "producedImage result = Some img \<longleftrightarrow> result = Returned (Some img)"
  by (simp add: producedImage_def split: outcome.splits)

lemma read_Some_readDataset:
  assumes "opensDataset e filename options s dataset"
    and "fst (read e filename options s) = Returned (Some img)"
  shows "readDataset e filename options dataset (opened e filename options s) =
           (Some img, snd (read e filename options s))"
  using assms by (simp add: read_opensDataset prod_eq_iff)

lemma blank_pixel:
  assumes "n \<le> 4" and "p < w * h" and "c < n"
  shows "replicate (w * h) (take n (dvec4_components (0, 0, 0, 1))) ! p ! c = (if c = 3 then 1 else 0)"
proof -
  from assms have "c = 0 \<or> c = 1 \<or> c = 2 \<or> c = 3" by arith
  with assms show ?thesis by (auto simp: numeral_eq_Suc)
qed

text \<open>The image of a successful translation.\<close>

lemma readDataset_Some_image:
  assumes "readDataset e filename options dataset s = (Some img, s')"
  shows "img_dataType img = hd (dataTypes dataset)"
    and "img_components img = promote (hintOf options) (length (usableBands dataset))"
    and "img_width img = rasterXSize dataset"
    and "img_height img = rasterYSize dataset"
    and "length (img_pixels img) = rasterXSize dataset * rasterYSize dataset"
    and "p < rasterXSize dataset * rasterYSize dataset \<Longrightarrow>
         length (img_pixels img ! p) = promote (hintOf options) (length (usableBands dataset))"
    and "p < rasterXSize dataset * rasterYSize dataset \<Longrightarrow>
         c < promote (hintOf options) (length (usableBands dataset)) \<Longrightarrow>
         img_pixels img ! p ! c =
           (if c < length (usableBands dataset) then raster (usableBands dataset ! c) p
            else if c = 3 then 1 else 0)"
proof -
  let ?w = "rasterXSize dataset" and ?h = "rasterYSize dataset"
  let ?n = "promote (hintOf options) (length (usableBands dataset))"
  let ?blank = "\<lparr>img_width = ?w, img_height = ?h, img_components = ?n,
                  img_dataType = hd (dataTypes dataset),
                  img_pixels = replicate (?w * ?h) (take ?n (dvec4_components (0, 0, 0, 1))),
                  img_values = Map.empty, img_objects = Map.empty\<rparr>"
  from readDataset_Some(3,4) [OF assms] have n: "?n \<le> 4"
    and "createImage2D e ?w ?h ?n (hd (dataTypes dataset)) (0, 0, 0, 1) = Some ?blank"
    by (simp_all add: createImage2D_def)
  with readDataset_Some(5) [OF assms] have img: "img = attachMetaData dataset (copyBands (usableBands dataset) 0 ?blank)"
    by blast
  show "img_dataType img = hd (dataTypes dataset)" and "img_components img = ?n"
    and "img_width img = ?w" and "img_height img = ?h" and "length (img_pixels img) = ?w * ?h"
    by (simp_all add: img)
  show "length (img_pixels img ! p) = ?n" if "p < ?w * ?h"
    using that n by (simp add: img copyBands_pixel_length)
  show "img_pixels img ! p ! c =
          (if c < length (usableBands dataset) then raster (usableBands dataset ! c) p
           else if c = 3 then 1 else 0)" if "p < ?w * ?h" and "c < ?n"
  proof -
    have "img_pixels img ! p ! c =
            (if 0 \<le> c \<and> c < length (usableBands dataset) then raster (usableBands dataset ! c) p
             else img_pixels ?blank ! p ! c)"
      unfolding img attachMetaData_fields using that n by (intro copyBands_pixel) simp_all
    also have "img_pixels ?blank ! p ! c = (if c = 3 then 1 else 0)"
      using blank_pixel [OF n that] by simp
    finally show ?thesis by simp
  qed
qed

subsection \<open>C1: the data types of the bands\<close>

lemma usableBands_types_subset:
  "rasterDataType ` set (usableBands dataset) \<subseteq> rasterDataType ` set (rasterBands dataset)"
  by (auto simp: usableBands_def)

text \<open>
  C1, as amended. For a dataset that the read opens: when the set of the data types of
  the contributing bands is empty or has more than one element, the result is empty;
  and when the read produces an image, that set has exactly one element, which is the
  data type of the image. The converse of the first part does not hold.
\<close>

theorem C1_data_types:
  assumes "opensDataset e filename options s dataset"
  shows "(rasterDataType ` set (usableBands dataset) = {} \<or>
          1 < card (rasterDataType ` set (usableBands dataset))
            \<longrightarrow> fst (read e filename options s) = Returned None) \<and>
         (\<forall>img. fst (read e filename options s) = Returned (Some img)
            \<longrightarrow> rasterDataType ` set (usableBands dataset) = {img_dataType img})"
proof (intro conjI impI allI)
  let ?U = "rasterDataType ` set (usableBands dataset)"
  let ?A = "rasterDataType ` set (rasterBands dataset)"
  assume "?U = {} \<or> 1 < card ?U"
  then have "usableBands dataset = [] \<or> length (dataTypes dataset) \<noteq> 1"
  proof
    assume "?U = {}"
    then show ?thesis by simp
  next
    assume "1 < card ?U"
    moreover have "card ?U \<le> card ?A"
      by (rule card_mono) (simp_all add: usableBands_types_subset)
    ultimately show ?thesis by (simp add: length_dataTypes)
  qed
  then have "fst (readDataset e filename options dataset (opened e filename options s)) = None"
    by (auto simp: readDataset_None_iff)
  then show "fst (read e filename options s) = Returned None"
    by (simp add: read_opensDataset [OF assms])
next
  fix img
  let ?U = "rasterDataType ` set (usableBands dataset)"
  assume "fst (read e filename options s) = Returned (Some img)"
  from read_Some_readDataset [OF assms this]
  have r: "readDataset e filename options dataset (opened e filename options s) =
             (Some img, snd (read e filename options s))" .
  from readDataset_Some(1) [OF r] obtain t where t: "dataTypes dataset = [t]"
    by (cases "dataTypes dataset") simp_all
  then have "set (dataTypes dataset) = {t}" by simp
  then have "?U \<subseteq> {t}"
    using usableBands_types_subset [of dataset] by (simp add: set_dataTypes)
  then have "?U = {} \<or> ?U = {t}" by (rule subset_singletonD)
  moreover from readDataset_Some(2) [OF r] have "?U \<noteq> {}" by simp
  ultimately have "?U = {t}" by simp
  moreover from readDataset_Some_image(1) [OF r] t have "img_dataType img = t" by simp
  ultimately show "?U = {img_dataType img}" by simp
qed

theorem C1_data_types_witness:
  "opensDataset (exampleEnv [(''/data/rgb.png'', rgbDataset)] (\<lambda>buffer. None) True)
     ''/data/rgb.png'' None exampleWorld rgbDataset \<and>
   map_option img_dataType (producedImage (fst (read (exampleEnv [(''/data/rgb.png'', rgbDataset)] (\<lambda>buffer. None) True)
     ''/data/rgb.png'' None exampleWorld))) = Some GDT_Byte \<and>
   rasterDataType ` set (usableBands rgbDataset) = {GDT_Byte}"
proof -
  let ?e = "exampleEnv [(''/data/rgb.png'', rgbDataset)] (\<lambda>buffer. None) True"
  have h: "opensDataset ?e ''/data/rgb.png'' None exampleWorld rgbDataset"
    by (simp add: opensDataset_def exampleEnv_def exampleFilePath_def vsg_fileExtension_def
        tolower_def nativeExtension_def exampleWorld_def)
  have t: "map_option img_dataType (producedImage (fst (read ?e ''/data/rgb.png'' None exampleWorld))) = Some GDT_Byte"
    by code_simp
  then obtain img where "fst (read ?e ''/data/rgb.png'' None exampleWorld) = Returned (Some img)"
    and "img_dataType img = GDT_Byte"
    by (auto simp: producedImage_Some)
  with C1_data_types [OF h] have "rasterDataType ` set (usableBands rgbDataset) = {GDT_Byte}"
    by simp
  with h t show ?thesis by simp
qed

text \<open>
  C1 as stated fails: five contributing bands of one data type. The set of their types
  has exactly one element and the result is empty.
\<close>

theorem C1_counterexample:
  "opensDataset (exampleEnv [(''/data/five.tif'', fiveBandDataset)] (\<lambda>buffer. None) True)
     ''/data/five.tif'' None exampleWorld fiveBandDataset \<and>
   rasterDataType ` set (usableBands fiveBandDataset) = {GDT_Byte} \<and>
   fst (read (exampleEnv [(''/data/five.tif'', fiveBandDataset)] (\<lambda>buffer. None) True)
     ''/data/five.tif'' None exampleWorld) = Returned None"
proof -
  let ?e = "exampleEnv [(''/data/five.tif'', fiveBandDataset)] (\<lambda>buffer. None) True"
  have "opensDataset ?e ''/data/five.tif'' None exampleWorld fiveBandDataset"
    by (simp add: opensDataset_def exampleEnv_def exampleFilePath_def vsg_fileExtension_def
        tolower_def nativeExtension_def exampleWorld_def)
  moreover have "rasterDataType ` set (usableBands fiveBandDataset) = {GDT_Byte}"
    by code_simp
  moreover have "emptyResult (fst (read ?e ''/data/five.tif'' None exampleWorld))"
    by code_simp
  ultimately show ?thesis by (simp add: emptyResult_iff)
qed

lemma opened_logged [simp]: "logged (opened e filename options s) = logged s"
  by (simp add: opened_def split: outcome.splits)

lemma opened_vsimem [simp]: "vsimem (opened e filename options s) = vsimem s"
  by (simp add: opened_def split: outcome.splits)

lemma read_Some_opens:
  assumes "fst (read e filename options s) = Returned (Some img)"
  shows "\<exists>dataset. opensDataset e filename options s dataset"
proof -
  define r where "r = (if filePath e filename = ''/vsimem'' then Returned filename
                       else findFile e filename options)"
  from assms have native: "\<not> nativeExtension (lowerCaseFileExtension e filename)"
    by (auto simp: read_def)
  with assms obtain filenameToUse where r: "r = Returned filenameToUse"
    unfolding read_def Let_def r_def [symmetric] by (cases r) simp_all
  with assms native have ne: "filenameToUse \<noteq> []"
    unfolding read_def Let_def r_def [symmetric] by (auto split: if_splits)
  define d where "d = openSharedDataSet e (vsimem s) filenameToUse"
  from assms native r ne obtain dataset where "d = Returned (Some dataset)"
    unfolding read_def Let_def r_def [symmetric]
    by (cases d; cases "case d of Returned p \<Rightarrow> p | _ \<Rightarrow> None")
       (simp_all add: initGDAL_def d_def [symmetric] split: prod.splits)
  with native r ne have "opensDataset e filename options s dataset"
    by (simp add: opensDataset_def r_def [symmetric] d_def)
  then show ?thesis ..
qed

lemma read_memory_Some:
  assumes "fst (read_memory e buffer options s) = Returned (Some img)"
  shows "\<exists>filename s1. fst (read e filename options s1) = Returned (Some img)"
proof (cases options)
  case None
  with assms show ?thesis by (simp add: read_memory_def)
next
  case (Some opts)
  let ?temp = "''/vsimem/temp'' @ extensionHint opts"
  let ?s1 = "snd (VSIFileFromMemBuffer ?temp buffer s)"
  from assms Some have "fst (read e ?temp options ?s1) = Returned (Some img)"
    by (simp add: read_memory_def Let_def split: prod.splits outcome.splits)
  then show ?thesis by blast
qed

lemma promote_cases: "promote hint n = n \<or> (n = 3 \<and> promote hint n = 4)"
  by (simp add: promote_def)

lemma read_Some_components:
  assumes "fst (read e filename options s) = Returned (Some img)"
  shows "img_components img \<in> {1, 2, 3, 4}"
proof -
  from read_Some_opens [OF assms] obtain dataset where o: "opensDataset e filename options s dataset" ..
  from read_Some_readDataset [OF o assms]
  have r: "readDataset e filename options dataset (opened e filename options s) =
             (Some img, snd (read e filename options s))" .
  from readDataset_Some(2,3) [OF r] readDataset_Some_image(2) [OF r]
  have "img_components img \<le> 4" and "0 < img_components img"
    using promote_cases [of "hintOf options" "length (usableBands dataset)"] by auto
  then show ?thesis by auto
qed

text \<open>
  The types are those of all bands: a band whose colour interpretation is undefined
  does not contribute, and its type counts all the same.
\<close>

lemma undefined_band_type_counts:
  "rasterDataType ` set (usableBands mixedDataset) = {GDT_Byte} \<and>
   fst (read (exampleEnv [(''/data/mixed.tif'', mixedDataset)] (\<lambda>buffer. None) True)
     ''/data/mixed.tif'' None exampleWorld) = Returned None"
proof -
  have "rasterDataType ` set (usableBands mixedDataset) = {GDT_Byte}"
    by code_simp
  moreover have "emptyResult (fst (read (exampleEnv [(''/data/mixed.tif'', mixedDataset)] (\<lambda>buffer. None) True)
     ''/data/mixed.tif'' None exampleWorld))"
    by code_simp
  ultimately show ?thesis by (simp add: emptyResult_iff)
qed

subsection \<open>C3: at most four components\<close>

text \<open>
  C3. For a dataset that the read opens, the number of components after the promotion
  exceeds 4 exactly when the dataset has more than 4 contributing bands, and then the
  result is empty. Every image that the read of a path or of a block of memory produces
  has 1, 2, 3 or 4 components.
\<close>

theorem C3_component_count:
  "(4 < promote (hintOf options) (length (usableBands dataset)) \<longleftrightarrow> 4 < length (usableBands dataset)) \<and>
   (opensDataset e filename options s dataset \<and> 4 < length (usableBands dataset)
      \<longrightarrow> fst (read e filename options s) = Returned None) \<and>
   (fst (read e filename options s) = Returned (Some img) \<longrightarrow> img_components img \<in> {1, 2, 3, 4}) \<and>
   (fst (read_memory e buffer options s) = Returned (Some img) \<longrightarrow> img_components img \<in> {1, 2, 3, 4})"
proof (intro conjI impI)
  show p: "4 < promote (hintOf options) (length (usableBands dataset)) \<longleftrightarrow> 4 < length (usableBands dataset)"
    by (simp add: promote_def)
  show "fst (read e filename options s) = Returned None"
    if "opensDataset e filename options s dataset \<and> 4 < length (usableBands dataset)"
  proof -
    from that p have "fst (readDataset e filename options dataset (opened e filename options s)) = None"
      by (simp add: readDataset_None_iff)
    moreover from that have "opensDataset e filename options s dataset" ..
    ultimately show ?thesis by (simp add: read_opensDataset)
  qed
  show "img_components img \<in> {1, 2, 3, 4}" if "fst (read e filename options s) = Returned (Some img)"
    using that by (rule read_Some_components)
  show "img_components img \<in> {1, 2, 3, 4}" if "fst (read_memory e buffer options s) = Returned (Some img)"
    using read_memory_Some [OF that] read_Some_components by blast
qed

theorem C3_component_count_witness:
  "opensDataset (exampleEnv [(''/data/five.tif'', fiveBandDataset)] (\<lambda>buffer. None) True)
     ''/data/five.tif'' None exampleWorld fiveBandDataset \<and>
   length (usableBands fiveBandDataset) = 5 \<and>
   promote (hintOf None) (length (usableBands fiveBandDataset)) = 5 \<and>
   fst (read (exampleEnv [(''/data/five.tif'', fiveBandDataset)] (\<lambda>buffer. None) True)
     ''/data/five.tif'' None exampleWorld) = Returned None \<and>
   map_option img_components (producedImage (fst (read (exampleEnv [(''/data/rgb.png'', rgbDataset)] (\<lambda>buffer. None) True)
     ''/data/rgb.png'' None exampleWorld))) = Some 4"
proof -
  let ?e = "exampleEnv [(''/data/five.tif'', fiveBandDataset)] (\<lambda>buffer. None) True"
  have h: "opensDataset ?e ''/data/five.tif'' None exampleWorld fiveBandDataset"
    by (simp add: opensDataset_def exampleEnv_def exampleFilePath_def vsg_fileExtension_def
        tolower_def nativeExtension_def exampleWorld_def)
  have n: "length (usableBands fiveBandDataset) = 5" by code_simp
  have p: "promote (hintOf None) (length (usableBands fiveBandDataset)) = 5" by code_simp
  have c: "map_option img_components (producedImage (fst (read (exampleEnv [(''/data/rgb.png'', rgbDataset)] (\<lambda>buffer. None) True)
     ''/data/rgb.png'' None exampleWorld))) = Some 4" by code_simp
  from C3_component_count [of None fiveBandDataset ?e "''/data/five.tif''" exampleWorld] h n
  have "fst (read ?e ''/data/five.tif'' None exampleWorld) = Returned None" by simp
  with h n p c show ?thesis by simp
qed

subsection \<open>C10: the image cannot be created\<close>

text \<open>
  C10. For a dataset that the read opens, with one data type over its bands and 1 to 4
  contributing bands: when \<open>createImage2D\<close> delivers no image, the read returns the
  empty result (it does not throw and returns no image), and it has logged nothing but
  the bands whose colour interpretation is undefined.
\<close>

theorem C10_no_image_created:
  assumes "opensDataset e filename options s dataset"
    and "card (rasterDataType ` set (rasterBands dataset)) = 1"
    and "1 \<le> length (usableBands dataset)" and "length (usableBands dataset) \<le> 4"
    and "createImage2D e (rasterXSize dataset) (rasterYSize dataset)
           (promote (hintOf options) (length (usableBands dataset))) (hd (dataTypes dataset)) (0, 0, 0, 1) = None"
  shows "read e filename options s =
           (Returned None,
            (opened e filename options s)\<lparr>logged := logged s @ map (Msg_undefined_band filename) (undefinedBands dataset)\<rparr>)"
proof -
  from assms(2) obtain t where t: "dataTypes dataset = [t]"
    by (cases "dataTypes dataset"; cases "tl (dataTypes dataset)") (simp_all add: length_dataTypes [symmetric])
  from assms(3,4) have "usableBands dataset \<noteq> []"
    and "\<not> 4 < promote (hintOf options) (length (usableBands dataset))"
    by (auto simp: promote_def)
  with assms(5) t have "readDataset e filename options dataset (opened e filename options s) =
      (None, (opened e filename options s)\<lparr>logged := logged s @ map (Msg_undefined_band filename) (undefinedBands dataset)\<rparr>)"
    unfolding readDataset_def Let_def selectBands_usableBands by simp
  then show ?thesis by (simp add: read_opensDataset [OF assms(1)])
qed

theorem C10_no_image_created_witness:
  "opensDataset (exampleEnv [(''/data/rgb.png'', rgbDataset)] (\<lambda>buffer. None) False)
     ''/data/rgb.png'' None exampleWorld rgbDataset \<and>
   card (rasterDataType ` set (rasterBands rgbDataset)) = 1 \<and>
   length (usableBands rgbDataset) = 3 \<and>
   read (exampleEnv [(''/data/rgb.png'', rgbDataset)] (\<lambda>buffer. None) False) ''/data/rgb.png'' None exampleWorld =
     (Returned None, \<lparr>gdal_calls = [Call_initGDAL, Call_openSharedDataSet ''/data/rgb.png''], vsimem = [], logged = []\<rparr>)"
proof -
  let ?e = "exampleEnv [(''/data/rgb.png'', rgbDataset)] (\<lambda>buffer. None) False"
  have h: "opensDataset ?e ''/data/rgb.png'' None exampleWorld rgbDataset"
    by (simp add: opensDataset_def exampleEnv_def exampleFilePath_def vsg_fileExtension_def
        tolower_def nativeExtension_def exampleWorld_def)
  have c: "card (rasterDataType ` set (rasterBands rgbDataset)) = 1" by code_simp
  have n: "length (usableBands rgbDataset) = 3" by code_simp
  have u: "undefinedBands rgbDataset = []" by code_simp
  have f: "createImage2D ?e (rasterXSize rgbDataset) (rasterYSize rgbDataset)
           (promote (hintOf None) (length (usableBands rgbDataset))) (hd (dataTypes rgbDataset)) (0, 0, 0, 1) = None"
    by (simp add: createImage2D_def exampleEnv_def)
  have o: "opened ?e ''/data/rgb.png'' None exampleWorld =
      \<lparr>gdal_calls = [Call_initGDAL, Call_openSharedDataSet ''/data/rgb.png''], vsimem = [], logged = []\<rparr>"
    by (simp add: opened_def exampleEnv_def exampleFilePath_def exampleWorld_def)
  from C10_no_image_created [OF h c _ _ f] n u o
  have "read ?e ''/data/rgb.png'' None exampleWorld =
     (Returned None, \<lparr>gdal_calls = [Call_initGDAL, Call_openSharedDataSet ''/data/rgb.png''], vsimem = [], logged = []\<rparr>)"
    by (simp add: exampleWorld_def)
  with h c n show ?thesis by simp
qed

subsection \<open>C2: three bands become four components\<close>




subsection \<open>C4: the contributing bands\<close>

text \<open>
  C4. The loop over the bands 1 to N collects the bands whose colour interpretation is
  not undefined, in band order, and logs one message for each other band, with its
  number; it fails for none. For a dataset that the read opens: when no band
  contributes, the result is empty; and when the read produces an image, those messages
  are what it has logged, and component \<open>c\<close> of every pixel is the sample of the
  contributing band number \<open>c\<close> (from 0).
\<close>

theorem C4_contributing_bands:
  assumes "opensDataset e filename options s dataset"
  shows "selectBands filename dataset 1 [] s0 =
           (filter (\<lambda>band. colorInterpretation band \<noteq> GCI_Undefined) (rasterBands dataset),
            s0\<lparr>logged := logged s0 @ map (Msg_undefined_band filename)
                 (filter (\<lambda>i. colorInterpretation (GetRasterBand dataset i) = GCI_Undefined)
                    [1..<Suc (GetRasterCount dataset)])\<rparr>) \<and>
         (usableBands dataset = [] \<longrightarrow> fst (read e filename options s) = Returned None) \<and>
         (\<forall>img. fst (read e filename options s) = Returned (Some img) \<longrightarrow>
            logged (snd (read e filename options s)) =
              logged s @ map (Msg_undefined_band filename) (undefinedBands dataset) \<and>
            (\<forall>c < length (usableBands dataset). \<forall>p < rasterXSize dataset * rasterYSize dataset.
               img_pixels img ! p ! c = raster (usableBands dataset ! c) p))"
proof (intro conjI impI allI)
  show "selectBands filename dataset 1 [] s0 =
           (filter (\<lambda>band. colorInterpretation band \<noteq> GCI_Undefined) (rasterBands dataset),
            s0\<lparr>logged := logged s0 @ map (Msg_undefined_band filename)
                 (filter (\<lambda>i. colorInterpretation (GetRasterBand dataset i) = GCI_Undefined)
                    [1..<Suc (GetRasterCount dataset)])\<rparr>)"
    by (simp add: selectBands_eq)
next
  assume "usableBands dataset = []"
  then have "fst (readDataset e filename options dataset (opened e filename options s)) = None"
    by (simp add: readDataset_None_iff)
  then show "fst (read e filename options s) = Returned None"
    by (simp add: read_opensDataset [OF assms])
next
  fix img
  assume "fst (read e filename options s) = Returned (Some img)"
  from read_Some_readDataset [OF assms this]
  have r: "readDataset e filename options dataset (opened e filename options s) =
             (Some img, snd (read e filename options s))" .
  from readDataset_Some(6) [OF r]
  show "logged (snd (read e filename options s)) =
          logged s @ map (Msg_undefined_band filename) (undefinedBands dataset)"
    by simp
  fix c p
  assume c: "c < length (usableBands dataset)" and p: "p < rasterXSize dataset * rasterYSize dataset"
  have "length (usableBands dataset) \<le> promote (hintOf options) (length (usableBands dataset))"
    by (simp add: promote_def)
  with c have "c < promote (hintOf options) (length (usableBands dataset))" by simp
  from readDataset_Some_image(7) [OF r p this] c
  show "img_pixels img ! p ! c = raster (usableBands dataset ! c) p" by simp
qed

theorem C4_contributing_bands_witness:
  "opensDataset (exampleEnv [(''/data/masked.tif'', maskedDataset)] (\<lambda>buffer. None) True)
     ''/data/masked.tif'' None exampleWorld maskedDataset \<and>
   map colorInterpretation (rasterBands maskedDataset) = [GCI_Undefined, GCI_GrayIndex] \<and>
   map colorInterpretation (usableBands maskedDataset) = [GCI_GrayIndex] \<and>
   undefinedBands maskedDataset = [1] \<and>
   logged (snd (read (exampleEnv [(''/data/masked.tif'', maskedDataset)] (\<lambda>buffer. None) True)
     ''/data/masked.tif'' None exampleWorld)) = [Msg_undefined_band ''/data/masked.tif'' 1] \<and>
   map_option (\<lambda>img. img_pixels img ! 1 ! 0) (producedImage (fst (read (exampleEnv [(''/data/masked.tif'', maskedDataset)] (\<lambda>buffer. None) True)
     ''/data/masked.tif'' None exampleWorld))) = Some 71"
proof -
  let ?e = "exampleEnv [(''/data/masked.tif'', maskedDataset)] (\<lambda>buffer. None) True"
  have h: "opensDataset ?e ''/data/masked.tif'' None exampleWorld maskedDataset"
    by (simp add: opensDataset_def exampleEnv_def exampleFilePath_def vsg_fileExtension_def
        tolower_def nativeExtension_def exampleWorld_def)
  have a: "map colorInterpretation (rasterBands maskedDataset) = [GCI_Undefined, GCI_GrayIndex]" by code_simp
  have b: "map colorInterpretation (usableBands maskedDataset) = [GCI_GrayIndex]" by code_simp
  have u: "undefinedBands maskedDataset = [1]" by code_simp
  have n: "length (usableBands maskedDataset) = 1" by code_simp
  have d: "rasterXSize maskedDataset * rasterYSize maskedDataset = 2" by code_simp
  have v: "raster (usableBands maskedDataset ! 0) 1 = 71" by code_simp
  have l: "logged exampleWorld = []" by code_simp
  have "map_option img_components (producedImage (fst (read ?e ''/data/masked.tif'' None exampleWorld))) = Some 1"
    by code_simp
  then obtain img where i: "fst (read ?e ''/data/masked.tif'' None exampleWorld) = Returned (Some img)"
    by (auto simp: producedImage_Some)
  from C4_contributing_bands [OF h, of exampleWorld] i u n d v l
  have "logged (snd (read ?e ''/data/masked.tif'' None exampleWorld)) = [Msg_undefined_band ''/data/masked.tif'' 1]"
    and "img_pixels img ! 1 ! 0 = 71"
    by simp_all
  with i h a b u show ?thesis by (simp add: producedImage_def)
qed

subsection \<open>C8: native extensions and unresolved paths\<close>

text \<open>
  C8. When the lower-case extension of the file name is one of \<open>.vsgb\<close>, \<open>.vsgt\<close>,
  \<open>.osgb\<close>, \<open>.osgt\<close>, \<open>.osg\<close>, \<open>.tile\<close>, the read returns the empty result and leaves
  the world as it was: no call into the library has been made. When the file name is
  not in the directory \<open>/vsimem\<close> and \<open>findFile\<close> returns the empty path, the same
  holds.
\<close>

theorem C8_rejected_up_front:
  "(lowerCaseFileExtension e filename \<in> {''.vsgb'', ''.vsgt'', ''.osgb'', ''.osgt'', ''.osg'', ''.tile''}
      \<longrightarrow> read e filename options s = (Returned None, s)) \<and>
   (filePath e filename \<noteq> ''/vsimem'' \<and> findFile e filename options = Returned []
      \<longrightarrow> read e filename options s = (Returned None, s))"
  by (simp add: read_def Let_def nativeExtension_def)

theorem C8_rejected_up_front_witness:
  "lowerCaseFileExtension (exampleEnv [(''/data/scene.vsgb'', rgbDataset)] (\<lambda>buffer. None) True) ''/data/scene.vsgb'' = ''.vsgb'' \<and>
   read (exampleEnv [(''/data/scene.vsgb'', rgbDataset)] (\<lambda>buffer. None) True) ''/data/scene.vsgb'' None exampleWorld =
     (Returned None, exampleWorld) \<and>
   filePath (exampleEnv [(''/data/scene.vsgb'', rgbDataset)] (\<lambda>buffer. None) True) ''/data/absent.tif'' = ''/data'' \<and>
   findFile (exampleEnv [(''/data/scene.vsgb'', rgbDataset)] (\<lambda>buffer. None) True) ''/data/absent.tif'' None = Returned [] \<and>
   read (exampleEnv [(''/data/scene.vsgb'', rgbDataset)] (\<lambda>buffer. None) True) ''/data/absent.tif'' None exampleWorld =
     (Returned None, exampleWorld)"
proof -
  let ?e = "exampleEnv [(''/data/scene.vsgb'', rgbDataset)] (\<lambda>buffer. None) True"
  have a: "lowerCaseFileExtension ?e ''/data/scene.vsgb'' = ''.vsgb''"
    by (simp add: exampleEnv_def vsg_fileExtension_def tolower_def)
  have b: "filePath ?e ''/data/absent.tif'' = ''/data''"
    by (simp add: exampleEnv_def exampleFilePath_def)
  have c: "findFile ?e ''/data/absent.tif'' None = Returned []"
    by (simp add: exampleEnv_def)
  from C8_rejected_up_front [of ?e "''/data/scene.vsgb''" None exampleWorld] a
  have "read ?e ''/data/scene.vsgb'' None exampleWorld = (Returned None, exampleWorld)" by simp
  moreover from C8_rejected_up_front [of ?e "''/data/absent.tif''" None exampleWorld] b c
  have "read ?e ''/data/absent.tif'' None exampleWorld = (Returned None, exampleWorld)" by simp
  ultimately show ?thesis using a b c by simp
qed

subsection \<open>C9: the case of the extension\<close>

lemma sameIgnoringCase_native:
  assumes "sameIgnoringCase ext native" and "nativeExtension native"
  shows "map tolower ext = native"
proof -
  from assms(2) have "map tolower native = native"
    unfolding nativeExtension_def by (elim disjE) (simp_all add: tolower_def)
  with assms(1) show ?thesis by (simp add: sameIgnoringCase_def)
qed

lemma tolower_fixed: "tolower (CHR ''.'') = CHR ''.''" "tolower (CHR ''/'') = CHR ''/''"
  by (simp_all add: tolower_def)

lemma tolower_range: "tolower c = c \<or> tolower c \<in> set ''abcdefghijklmnopqrstuvwxyz''"
proof (cases "map_of (zip ''ABCDEFGHIJKLMNOPQRSTUVWXYZ'' ''abcdefghijklmnopqrstuvwxyz'') c")
  case None
  then show ?thesis by (simp add: tolower_def)
next
  case (Some l)
  then have "(c, l) \<in> set (zip ''ABCDEFGHIJKLMNOPQRSTUVWXYZ'' ''abcdefghijklmnopqrstuvwxyz'')"
    by (rule map_of_SomeD)
  then have "l \<in> set ''abcdefghijklmnopqrstuvwxyz''" by (rule set_zip_rightD)
  with Some show ?thesis by (simp add: tolower_def)
qed

lemma tolower_dot: "tolower c = CHR ''.'' \<Longrightarrow> c = CHR ''.''"
  using tolower_range [of c] by auto

text \<open>A string that is a native extension up to case is a dot and then neither dot nor slash.\<close>

lemma sameIgnoringCase_native_shape:
  assumes "sameIgnoringCase ext native" and "nativeExtension native"
  shows "\<exists>rest. ext = CHR ''.'' # rest \<and> CHR ''.'' \<notin> set rest \<and> CHR ''/'' \<notin> set rest"
proof -
  from assms have m: "map tolower ext = native" by (rule sameIgnoringCase_native)
  from assms(2) obtain nrest where n: "native = CHR ''.'' # nrest"
    and free: "CHR ''.'' \<notin> set nrest" "CHR ''/'' \<notin> set nrest"
    unfolding nativeExtension_def by (elim disjE) simp_all
  from m n obtain c rest where ext: "ext = c # rest" and c: "tolower c = CHR ''.''"
    and rest: "map tolower rest = nrest"
    by (cases ext) auto
  from c have "c = CHR ''.''" by (rule tolower_dot)
  moreover have "CHR ''.'' \<notin> set rest"
  proof
    assume "CHR ''.'' \<in> set rest"
    then have "tolower (CHR ''.'') \<in> set (map tolower rest)" by (simp only: set_map image_eqI)
    with rest free(1) show False by (simp only: tolower_fixed)
  qed
  moreover have "CHR ''/'' \<notin> set rest"
  proof
    assume "CHR ''/'' \<in> set rest"
    then have "tolower (CHR ''/'') \<in> set (map tolower rest)" by (simp only: set_map image_eqI)
    with rest free(2) show False by (simp only: tolower_fixed)
  qed
  ultimately show ?thesis using ext by simp
qed

lemma vsg_fileExtension_suffix:
  assumes "CHR ''.'' \<notin> set rest" and "CHR ''/'' \<notin> set rest"
  shows "vsg_fileExtension (stem @ CHR ''.'' # rest) = CHR ''.'' # rest"
proof -
  let ?P = "\<lambda>c. c \<noteq> CHR ''/''" and ?Q = "\<lambda>c. c \<noteq> CHR ''.''"
  have p: "x \<noteq> CHR ''/''" if "x \<in> set (rev rest)" for x
    using that assms(2) by auto
  have q: "x \<noteq> CHR ''.''" if "x \<in> set (rev rest)" for x
    using that assms(1) by auto
  have "takeWhile ?P (rev (stem @ CHR ''.'' # rest)) = rev rest @ CHR ''.'' # takeWhile ?P (rev stem)"
    using takeWhile_append2 [of "rev rest" ?P "CHR ''.'' # rev stem", OF p] by simp
  then have name: "rev (takeWhile ?P (rev (stem @ CHR ''.'' # rest))) = rev (takeWhile ?P (rev stem)) @ CHR ''.'' # rest"
    by simp
  have "takeWhile ?Q (rev rest @ CHR ''.'' # takeWhile ?P (rev stem)) = rev rest"
    using takeWhile_append2 [of "rev rest" ?Q "CHR ''.'' # takeWhile ?P (rev stem)", OF q] by simp
  then show ?thesis
    unfolding vsg_fileExtension_def Let_def name by simp
qed

text \<open>
  C9. The file name is any \<open>stem\<close> followed by \<open>ext\<close>, where \<open>ext\<close> is one of the six
  native extensions up to the case of its letters. Then \<open>ext\<close> is the extension of the
  file name, and in every environment in which \<open>lowerCaseFileExtension\<close> is the VSG
  function, the read returns the empty result and leaves the world as it was.
\<close>

theorem C9_case_insensitive:
  assumes "sameIgnoringCase ext native"
    and "native \<in> {''.vsgb'', ''.vsgt'', ''.osgb'', ''.osgt'', ''.osg'', ''.tile''}"
  shows "vsg_fileExtension (stem @ ext) = ext \<and>
         read (withLowerCaseFileExtension e) (stem @ ext) options s = (Returned None, s)"
proof -
  from assms(2) have native: "nativeExtension native" by (auto simp: nativeExtension_def)
  with assms(1) have lower: "map tolower ext = native" by (rule sameIgnoringCase_native)
  from sameIgnoringCase_native_shape [OF assms(1) native]
  obtain rest where "ext = CHR ''.'' # rest" and "CHR ''.'' \<notin> set rest" and "CHR ''/'' \<notin> set rest"
    by blast
  then have x: "vsg_fileExtension (stem @ ext) = ext"
    by (simp add: vsg_fileExtension_suffix)
  with lower have "lowerCaseFileExtension (withLowerCaseFileExtension e) (stem @ ext) = native"
    by (simp add: withLowerCaseFileExtension_def vsg_lowerCaseFileExtension_def)
  with native have "read (withLowerCaseFileExtension e) (stem @ ext) options s = (Returned None, s)"
    by (simp add: read_def)
  with x show ?thesis by simp
qed

theorem C9_case_insensitive_witness:
  "sameIgnoringCase ''.VSGB'' ''.vsgb'' \<and>
   vsg_fileExtension (''/data/Scene'' @ ''.VSGB'') = ''.VSGB'' \<and>
   read (withLowerCaseFileExtension (exampleEnv [(''/data/Scene.VSGB'', rgbDataset)] (\<lambda>buffer. None) True))
     (''/data/Scene'' @ ''.VSGB'') None exampleWorld = (Returned None, exampleWorld) \<and>
   sameIgnoringCase ''.Tile'' ''.tile'' \<and>
   read (withLowerCaseFileExtension throwingEnv) (''/maps/12/7.3'' @ ''.Tile'') None exampleWorld =
     (Returned None, exampleWorld)"
proof -
  let ?e = "exampleEnv [(''/data/Scene.VSGB'', rgbDataset)] (\<lambda>buffer. None) True"
  have b: "sameIgnoringCase ''.VSGB'' ''.vsgb''" by (simp add: sameIgnoringCase_def tolower_def)
  have c: "sameIgnoringCase ''.Tile'' ''.tile''" by (simp add: sameIgnoringCase_def tolower_def)
  from C9_case_insensitive [OF b, of "''/data/Scene''" ?e None exampleWorld]
  have d: "vsg_fileExtension (''/data/Scene'' @ ''.VSGB'') = ''.VSGB''"
    and f: "read (withLowerCaseFileExtension ?e) (''/data/Scene'' @ ''.VSGB'') None exampleWorld = (Returned None, exampleWorld)"
    by simp_all
  from C9_case_insensitive [OF c, of "''/maps/12/7.3''" throwingEnv None exampleWorld]
  have g: "read (withLowerCaseFileExtension throwingEnv) (''/maps/12/7.3'' @ ''.Tile'') None exampleWorld =
     (Returned None, exampleWorld)"
    by simp
  from b c d f g show ?thesis by (intro conjI)
qed

text \<open>A file name with another extension is not rejected at line 127.\<close>

lemma other_extension_not_native:
  "\<not> nativeExtension (vsg_lowerCaseFileExtension ''/data/photo.PNG'')"
  by (simp add: vsg_lowerCaseFileExtension_def vsg_fileExtension_def tolower_def nativeExtension_def)

subsection \<open>The read of a block of memory\<close>




lemma read_memory_Some_options:
  "read_memory e buffer (Some opts) s =
     (let temp_filename = ''/vsimem/temp'' @ extensionHint opts;
          vsFile = \<lparr>vsi_filename = temp_filename, vsi_buffer = buffer\<rparr>;
          s1 = snd (VSIFileFromMemBuffer temp_filename buffer s);
          result = fst (read e temp_filename (Some opts) s1);
          s2 = snd (read e temp_filename (Some opts) s1)
      in (result, case result of Returned r \<Rightarrow> VSIFCloseL vsFile s2 | Thrown x \<Rightarrow> s2 | Crashed \<Rightarrow> s2))"
  by (simp add: read_memory_def VSIFileFromMemBuffer_def Let_def case_prod_beta split: outcome.splits)

lemma infoTypes_gdal_calls: "gdal_calls (infoTypes types s) = gdal_calls s"
  unfolding infoTypes_def by (induction types arbitrary: s) (simp_all add: info_def)

lemma readDataset_gdal_calls: "gdal_calls (snd (readDataset e filename options dataset s)) = gdal_calls s"
  unfolding readDataset_def Let_def selectBands_usableBands
  by (simp add: info_def infoTypes_gdal_calls split: option.splits)

lemma read_gdal_calls: "set (gdal_calls s) \<subseteq> set (gdal_calls (snd (read e filename options s)))"
proof -
  define r where "r = (if filePath e filename = ''/vsimem'' then Returned filename
                       else findFile e filename options)"
  show ?thesis
  proof (cases r)
    case (Returned filenameToUse)
    show ?thesis
    proof (cases "openSharedDataSet e (vsimem s) filenameToUse")
      case r: (Returned p)
      with Returned show ?thesis
        unfolding read_def Let_def r_def [symmetric]
        by (cases p) (auto simp: initGDAL_def readDataset_gdal_calls case_prod_beta)
    next
      case (Thrown x)
      with Returned show ?thesis
        unfolding read_def Let_def r_def [symmetric] by (auto simp: initGDAL_def)
    next
      case Crashed
      with Returned show ?thesis
        unfolding read_def Let_def r_def [symmetric] by (auto simp: initGDAL_def)
    qed
  qed (simp_all add: read_def Let_def r_def [symmetric])
qed

subsection \<open>C5: a block of memory without an extension hint\<close>

text \<open>
  C5 as stated fails: options with an empty extension hint, and a block of memory that
  the library recognises by its first bytes. The read registers the block as
  \<open>/vsimem/temp\<close>, opens it and produces an image.
\<close>

theorem C5_counterexample:
  "extensionHint noHintOptions = [] \<and>
   map_option img_components
     (producedImage (fst (read_memory (exampleEnv [] tiffDecoder True) [73, 73, 42, 0] (Some noHintOptions) exampleWorld))) =
     Some 1"
proof -
  have "extensionHint noHintOptions = []" by (simp add: noHintOptions_def)
  moreover have "map_option img_components
     (producedImage (fst (read_memory (exampleEnv [] tiffDecoder True) [73, 73, 42, 0] (Some noHintOptions) exampleWorld))) =
     Some 1"
    by code_simp
  ultimately show ?thesis by simp
qed

text \<open>
  C5, as amended. With options supplied, the read of a block of memory does not test
  the extension hint: it registers the block under \<open>/vsimem/temp\<close> followed by the
  hint, empty or not, and its result is the result of the read of that path. With an
  empty hint, when that read opens a dataset, the result is the translation of the
  dataset.
\<close>

theorem C5_hint_not_tested:
  "Call_VSIFileFromMemBuffer (''/vsimem/temp'' @ extensionHint opts) buffer
     \<in> set (gdal_calls (snd (read_memory e buffer (Some opts) s))) \<and>
   fst (read_memory e buffer (Some opts) s) =
     fst (read e (''/vsimem/temp'' @ extensionHint opts) (Some opts)
            (snd (VSIFileFromMemBuffer (''/vsimem/temp'' @ extensionHint opts) buffer s))) \<and>
   (extensionHint opts = [] \<and>
    opensDataset e ''/vsimem/temp'' (Some opts) (snd (VSIFileFromMemBuffer ''/vsimem/temp'' buffer s)) dataset
      \<longrightarrow> fst (read_memory e buffer (Some opts) s) =
            Returned (fst (readDataset e ''/vsimem/temp'' (Some opts) dataset
               (opened e ''/vsimem/temp'' (Some opts) (snd (VSIFileFromMemBuffer ''/vsimem/temp'' buffer s))))))"
proof (intro conjI impI)
  let ?temp = "''/vsimem/temp'' @ extensionHint opts"
  let ?s1 = "snd (VSIFileFromMemBuffer ?temp buffer s)"
  show r: "fst (read_memory e buffer (Some opts) s) = fst (read e ?temp (Some opts) ?s1)"
    by (simp add: read_memory_Some_options Let_def)
  have "Call_VSIFileFromMemBuffer ?temp buffer \<in> set (gdal_calls ?s1)"
    by (simp add: VSIFileFromMemBuffer_def Let_def)
  moreover have "set (gdal_calls ?s1) \<subseteq> set (gdal_calls (snd (read e ?temp (Some opts) ?s1)))"
    by (rule read_gdal_calls)
  moreover have "set (gdal_calls (snd (read e ?temp (Some opts) ?s1)))
      \<subseteq> set (gdal_calls (snd (read_memory e buffer (Some opts) s)))"
    by (auto simp: read_memory_Some_options Let_def VSIFCloseL_def split: outcome.splits)
  ultimately show "Call_VSIFileFromMemBuffer ?temp buffer \<in> set (gdal_calls (snd (read_memory e buffer (Some opts) s)))"
    by blast
  assume "extensionHint opts = [] \<and>
    opensDataset e ''/vsimem/temp'' (Some opts) (snd (VSIFileFromMemBuffer ''/vsimem/temp'' buffer s)) dataset"
  then have h: "extensionHint opts = []"
    and o: "opensDataset e ''/vsimem/temp'' (Some opts) (snd (VSIFileFromMemBuffer ''/vsimem/temp'' buffer s)) dataset"
    by simp_all
  from r h show "fst (read_memory e buffer (Some opts) s) =
            Returned (fst (readDataset e ''/vsimem/temp'' (Some opts) dataset
               (opened e ''/vsimem/temp'' (Some opts) (snd (VSIFileFromMemBuffer ''/vsimem/temp'' buffer s)))))"
    by (simp add: read_opensDataset [OF o])
qed

theorem C5_hint_not_tested_witness:
  "extensionHint noHintOptions = [] \<and>
   opensDataset (exampleEnv [] tiffDecoder True) ''/vsimem/temp'' (Some noHintOptions)
     (snd (VSIFileFromMemBuffer ''/vsimem/temp'' [73, 73, 42, 0] exampleWorld)) grayDataset \<and>
   fst (read_memory (exampleEnv [] tiffDecoder True) [73, 73, 42, 0] (Some noHintOptions) exampleWorld) =
     Returned (fst (readDataset (exampleEnv [] tiffDecoder True) ''/vsimem/temp'' (Some noHintOptions) grayDataset
       (opened (exampleEnv [] tiffDecoder True) ''/vsimem/temp'' (Some noHintOptions)
          (snd (VSIFileFromMemBuffer ''/vsimem/temp'' [73, 73, 42, 0] exampleWorld)))))"
proof -
  let ?e = "exampleEnv [] tiffDecoder True"
  have h: "extensionHint noHintOptions = []" by (simp add: noHintOptions_def)
  have o: "opensDataset ?e ''/vsimem/temp'' (Some noHintOptions)
     (snd (VSIFileFromMemBuffer ''/vsimem/temp'' [73, 73, 42, 0] exampleWorld)) grayDataset"
    by (simp add: opensDataset_def exampleEnv_def exampleFilePath_def vsg_fileExtension_def
        nativeExtension_def exampleWorld_def VSIFileFromMemBuffer_def Let_def tiffDecoder_def)
  from C5_hint_not_tested [of noHintOptions "[73, 73, 42, 0]" ?e exampleWorld grayDataset] h o
  have "fst (read_memory ?e [73, 73, 42, 0] (Some noHintOptions) exampleWorld) =
     Returned (fst (readDataset ?e ''/vsimem/temp'' (Some noHintOptions) grayDataset
       (opened ?e ''/vsimem/temp'' (Some noHintOptions)
          (snd (VSIFileFromMemBuffer ''/vsimem/temp'' [73, 73, 42, 0] exampleWorld)))))"
    by blast
  with h o show ?thesis by (intro conjI)
qed

subsection \<open>C6: the virtual file after the read\<close>




subsection \<open>The scan of a string of extensions\<close>

lemma find_first_append:
  "find_first P (xs @ ys) =
     (case find_first P xs of
        Some i \<Rightarrow> Some i
      | None \<Rightarrow> map_option (\<lambda>i. length xs + i) (find_first P ys))"
proof (induction xs)
  case Nil
  show ?case by (cases "find_first P ys") simp_all
next
  case (Cons a xs)
  then show ?case by (cases "find_first P ys"; cases "find_first P xs") simp_all
qed

lemma find_first_None: "(\<forall>x \<in> set xs. \<not> P x) \<Longrightarrow> find_first P xs = None"
  by (induction xs) simp_all

lemma find_first_Some: "\<exists>x \<in> set xs. P x \<Longrightarrow> \<exists>i < length xs. find_first P xs = Some i"
  by (induction xs) auto

lemma find_first_hd: "xs \<noteq> [] \<Longrightarrow> P (hd xs) \<Longrightarrow> find_first P xs = Some 0"
  by (cases xs) simp_all

lemma setFeature_map [simp]:
  "extensionFeatureMap (setFeature key features) = (extensionFeatureMap features)(key \<mapsto> rasterFeatureMask)"
  by (simp add: setFeature_def)

text \<open>A key that is recorded stays recorded.\<close>

lemma scanExtensions_keeps:
  "extensionFeatureMap features key = Some rasterFeatureMask \<Longrightarrow>
   extensionFeatureMap (scanExtensions extensions start_pos features) key = Some rasterFeatureMask"
proof (induction extensions start_pos features rule: scanExtensions.induct)
  case (1 extensions start_pos features)
  show ?case
  proof (cases "find_first_not_of extensions '' .'' start_pos")
    case None
    with "1.prems" show ?thesis by (subst scanExtensions.simps) simp
  next
    case s: (Some start_pos1)
    show ?thesis
    proof (cases "find_first_of extensions '' /'' start_pos1")
      case None
      with s "1.prems" show ?thesis by (subst scanExtensions.simps) simp
    next
      case d: (Some delimiter_pos)
      show ?thesis
      proof (cases "delimiter_pos + 1 = length extensions")
        case True
        with s d "1.prems" show ?thesis by (subst scanExtensions.simps) simp
      next
        case False
        have "extensionFeatureMap
                (scanExtensions extensions (delimiter_pos + 1)
                   (setFeature (dotPrefix @ substr extensions start_pos1 (Some (delimiter_pos - start_pos1))) features))
                key = Some rasterFeatureMask"
          using s d False "1.prems" by (intro "1.IH") simp_all
        with s d False show ?thesis by (subst scanExtensions.simps) simp
      qed
    qed
  qed
qed


lemma substr_Some_append:
  "substr (xs @ ys @ zs) (length xs) (Some (length xs + length ys - length xs)) = ys"
  by (simp add: substr_def)

lemma substr_None_append: "substr (xs @ ys) (length xs) None = ys"
  by (simp add: substr_def)

text \<open>
  One extension in a string of extensions: \<open>pre\<close> is empty or ends with a delimiter,
  \<open>dots\<close> are dots before the extension, \<open>ext\<close> has no delimiter and does not start
  with a dot, \<open>post\<close> is empty or starts with a delimiter. A scan that starts within
  \<open>pre\<close> records \<open>ext\<close> behind a dot.
\<close>

lemma scanExtensions_at_extension:
  assumes dots: "set dots \<subseteq> {CHR ''.''}"
    and ext: "ext \<noteq> []" "hd ext \<noteq> CHR ''.''" "set ext \<inter> set '' /'' = {}"
    and post: "post = [] \<or> hd post \<in> set '' /''"
  shows "extensionFeatureMap (scanExtensions (pre @ dots @ ext @ post) (length pre) features) (dotPrefix @ ext)
           = Some rasterFeatureMask"
proof -
  let ?extensions = "pre @ dots @ ext @ post"
  let ?q = "length pre + length dots"
  from ext have hd_ext: "hd ext \<notin> set '' .''" by (cases ext) auto
  have "find_first (\<lambda>c. c \<notin> set '' .'') (dots @ ext @ post) = Some (length dots)"
    using dots hd_ext ext(1)
    by (subst find_first_append) (simp add: find_first_None subset_iff find_first_append find_first_hd)
  then have s: "find_first_not_of ?extensions '' .'' (length pre) = Some ?q"
    by (simp add: find_first_not_of_def)
  have none: "find_first (\<lambda>c. c \<in> set '' /'') ext = None"
    using ext(3) by (intro find_first_None) auto
  have e: "?extensions = (pre @ dots) @ ext @ post" by simp
  show ?thesis
  proof (cases post)
    case Nil
    with none have "find_first_of ?extensions '' /'' ?q = None"
      by (simp add: find_first_of_def)
    moreover have "substr ?extensions ?q None = ext"
      using Nil substr_None_append [of "pre @ dots" ext] by simp
    ultimately show ?thesis using s by (subst scanExtensions.simps) simp
  next
    case (Cons c post')
    with post have "find_first (\<lambda>c. c \<in> set '' /'') post = Some 0" by simp
    with none have "find_first (\<lambda>c. c \<in> set '' /'') (ext @ post) = Some (length ext)"
      by (simp add: find_first_append)
    then have d: "find_first_of ?extensions '' /'' ?q = Some (?q + length ext)"
      by (simp add: find_first_of_def)
    have x: "substr ?extensions ?q (Some (?q + length ext - ?q)) = ext"
      using substr_Some_append [of "pre @ dots" ext post] by simp
    show ?thesis
    proof (cases "?q + length ext + 1 = length ?extensions")
      case True
      with s d x show ?thesis by (subst scanExtensions.simps) simp
    next
      case False
      have "extensionFeatureMap
              (scanExtensions ?extensions (?q + length ext + 1) (setFeature (dotPrefix @ ext) features))
              (dotPrefix @ ext) = Some rasterFeatureMask"
        by (rule scanExtensions_keeps) simp
      with s d x False show ?thesis by (subst scanExtensions.simps) simp
    qed
  qed
qed

lemma scanExtensions_reaches:
  assumes pre: "pre = [] \<or> last pre \<in> set '' /''"
    and dots: "set dots \<subseteq> {CHR ''.''}"
    and ext: "ext \<noteq> []" "hd ext \<noteq> CHR ''.''" "set ext \<inter> set '' /'' = {}"
    and post: "post = [] \<or> hd post \<in> set '' /''"
    and start: "start_pos \<le> length pre"
  shows "extensionFeatureMap (scanExtensions (pre @ dots @ ext @ post) start_pos features) (dotPrefix @ ext)
           = Some rasterFeatureMask"
  using start
proof (induction "length pre - start_pos" arbitrary: start_pos features rule: less_induct)
  case less
  let ?extensions = "pre @ dots @ ext @ post"
  let ?q = "length pre + length dots"
  from ext have hd_ext: "hd ext \<notin> set '' .''" by (cases ext) auto
  have rest: "find_first (\<lambda>c. c \<notin> set '' .'') (dots @ ext @ post) = Some (length dots)"
    using dots hd_ext ext(1)
    by (subst find_first_append) (simp add: find_first_None subset_iff find_first_append find_first_hd)
  have drop: "drop start_pos ?extensions = drop start_pos pre @ dots @ ext @ post"
    using less.prems by simp
  show ?case
  proof (cases "find_first (\<lambda>c. c \<notin> set '' .'') (drop start_pos pre)")
    case None
    with rest less.prems have s: "find_first_not_of ?extensions '' .'' start_pos = Some ?q"
      unfolding find_first_not_of_def drop by (subst find_first_append) simp
    have at: "find_first_not_of ?extensions '' .'' (length pre) = Some ?q"
      using rest by (simp add: find_first_not_of_def)
    have "scanExtensions ?extensions start_pos features = scanExtensions ?extensions (length pre) features"
      by (subst scanExtensions.simps, subst (2) scanExtensions.simps) (simp only: s at)
    then show ?thesis
      using scanExtensions_at_extension [OF dots ext post] by simp
  next
    case (Some i)
    then have i: "i < length pre - start_pos"
      using find_first_less [of "\<lambda>c. c \<notin> set '' .''" "drop start_pos pre" i] by simp
    from Some have s: "find_first_not_of ?extensions '' .'' start_pos = Some (start_pos + i)"
      unfolding find_first_not_of_def drop by (subst find_first_append) simp
    let ?s1 = "start_pos + i"
    from i have ne: "drop ?s1 pre \<noteq> []" by simp
    with pre have "last (drop ?s1 pre) \<in> set '' /''" by auto
    with ne have "\<exists>x \<in> set (drop ?s1 pre). x \<in> set '' /''"
      using last_in_set [of "drop ?s1 pre"] by blast
    from find_first_Some [OF this] obtain j where j: "j < length pre - ?s1"
      and f: "find_first (\<lambda>c. c \<in> set '' /'') (drop ?s1 pre) = Some j"
      by auto
    have "drop ?s1 ?extensions = drop ?s1 pre @ dots @ ext @ post"
      using i by simp
    with f have d: "find_first_of ?extensions '' /'' ?s1 = Some (?s1 + j)"
      unfolding find_first_of_def by (simp add: find_first_append)
    let ?next = "?s1 + j + 1"
    let ?features = "setFeature (dotPrefix @ substr ?extensions ?s1 (Some (?s1 + j - ?s1))) features"
    from j ext(1) have not_end: "?next \<noteq> length ?extensions" by (cases ext) auto
    from j have "length pre - ?next < length pre - start_pos" and "?next \<le> length pre" by auto
    then have "extensionFeatureMap (scanExtensions ?extensions ?next ?features) (dotPrefix @ ext)
                 = Some rasterFeatureMask"
      by (rule less.hyps)
    moreover have "scanExtensions ?extensions start_pos features = scanExtensions ?extensions ?next ?features"
      using not_end by (subst scanExtensions.simps) (simp only: s d option.case if_False)
    ultimately show ?thesis by simp
  qed
qed

subsection \<open>The loop over the drivers\<close>

lemma scanDrivers_keeps:
  "extensionFeatureMap features key = Some rasterFeatureMask \<Longrightarrow>
   extensionFeatureMap (scanDrivers driverManager i features) key = Some rasterFeatureMask"
proof (induction driverManager i features rule: scanDrivers.induct)
  case (1 driverManager i features)
  show ?case
  proof (cases "i < length driverManager")
    case False
    with "1.prems" show ?thesis by (subst scanDrivers.simps) simp
  next
    case True
    show ?thesis
    proof (cases "DCAP_RASTER (driverManager ! i) \<noteq> None \<and> DMD_EXTENSIONS (driverManager ! i) \<noteq> None")
      case both: True
      have "extensionFeatureMap
              (scanDrivers driverManager (i + 1)
                 (scanExtensions (the (DMD_EXTENSIONS (driverManager ! i))) 0 features)) key
            = Some rasterFeatureMask"
        using True both "1.prems" by (intro "1.IH"(1)) (auto simp: scanExtensions_keeps)
      with True both show ?thesis by (subst scanDrivers.simps) (simp add: Let_def)
    next
      case False
      have "extensionFeatureMap (scanDrivers driverManager (i + 1) features) key = Some rasterFeatureMask"
        using True False "1.prems" by (intro "1.IH"(2)) simp_all
      with True False show ?thesis by (subst scanDrivers.simps) (auto simp: Let_def)
    qed
  qed
qed

lemma scanDrivers_records:
  assumes "k < length driverManager"
    and "DCAP_RASTER (driverManager ! k) \<noteq> None"
    and "DMD_EXTENSIONS (driverManager ! k) = Some extensions"
    and "\<And>features. extensionFeatureMap (scanExtensions extensions 0 features) key = Some rasterFeatureMask"
    and "i \<le> k"
  shows "extensionFeatureMap (scanDrivers driverManager i features) key = Some rasterFeatureMask"
  using assms(5)
proof (induction "k - i" arbitrary: i features rule: less_induct)
  case less
  from less.prems assms(1) have i: "i < length driverManager" by simp
  show ?case
  proof (cases "i = k")
    case True
    have "extensionFeatureMap (scanDrivers driverManager (k + 1) (scanExtensions extensions 0 features)) key
            = Some rasterFeatureMask"
      by (rule scanDrivers_keeps) (rule assms(4))
    with True assms(1-3) show ?thesis by (subst scanDrivers.simps) (simp add: Let_def)
  next
    case False
    with less.prems have "k - (i + 1) < k - i" and "i + 1 \<le> k" by simp_all
    then have "extensionFeatureMap (scanDrivers driverManager (i + 1) features') key = Some rasterFeatureMask"
      for features'
      by (rule less.hyps)
    with i show ?thesis by (subst scanDrivers.simps) (simp add: Let_def)
  qed
qed

lemma scanDrivers_none:
  "\<forall>driver \<in> set driverManager. DCAP_RASTER driver = None \<or> DMD_EXTENSIONS driver = None \<Longrightarrow>
   scanDrivers driverManager i features = features"
proof (induction driverManager i features rule: scanDrivers.induct)
  case (1 driverManager i features)
  show ?case
  proof (cases "i < length driverManager")
    case False
    then show ?thesis by (subst scanDrivers.simps) simp
  next
    case True
    then have "driverManager ! i \<in> set driverManager" by simp
    with "1.prems" have "DCAP_RASTER (driverManager ! i) = None \<or> DMD_EXTENSIONS (driverManager ! i) = None"
      by (rule bspec)
    then have n: "\<not> (DCAP_RASTER (driverManager ! i) \<noteq> None \<and> DMD_EXTENSIONS (driverManager ! i) \<noteq> None)"
      by auto
    have "scanDrivers driverManager (i + 1) features = features"
      using True n "1.prems" by (intro "1.IH"(2)) auto
    with True n show ?thesis by (subst scanDrivers.simps) (auto simp: Let_def)
  qed
qed

subsection \<open>C7: the extensions of the drivers\<close>

text \<open>
  C7 as stated fails: a driver that declares the extension \<open>TIFF\<close> in upper case. The
  key that is recorded is \<open>.TIFF\<close>; no key \<open>.tiff\<close> is recorded.
\<close>

theorem C7_counterexample:
  "DCAP_RASTER exampleDriver = Some ''YES'' \<and>
   DMD_EXTENSIONS exampleDriver = Some ''tif .TIFF/png'' \<and>
   extensionFeatureMap (snd (fst (getFeatures [exampleDriver] noFeatures exampleWorld))) ''.TIFF'' = Some READ_FILENAME \<and>
   extensionFeatureMap (snd (fst (getFeatures [exampleDriver] noFeatures exampleWorld))) ''.tiff'' = None"
proof -
  have "DCAP_RASTER exampleDriver = Some ''YES''" and "DMD_EXTENSIONS exampleDriver = Some ''tif .TIFF/png''"
    by (simp_all add: exampleDriver_def)
  moreover have "extensionFeatureMap (snd (fst (getFeatures [exampleDriver] noFeatures exampleWorld))) ''.TIFF'' = Some READ_FILENAME"
    by code_simp
  moreover have "extensionFeatureMap (snd (fst (getFeatures [exampleDriver] noFeatures exampleWorld))) ''.tiff'' = None"
    by code_simp
  ultimately show ?thesis by simp
qed

text \<open>
  The loop is a fold over the drivers that declare both items, in the order of the
  registry: the other drivers are passed over.
\<close>

lemma scanDrivers_declaring:
  "scanDrivers driverManager i features =
     foldl (\<lambda>features driver. scanExtensions (the (DMD_EXTENSIONS driver)) 0 features) features
       (filter (\<lambda>driver. DCAP_RASTER driver \<noteq> None \<and> DMD_EXTENSIONS driver \<noteq> None) (drop i driverManager))"
proof (induction driverManager i features rule: scanDrivers.induct)
  case (1 driverManager i features)
  show ?case
  proof (cases "i < length driverManager")
    case False
    then show ?thesis by (subst scanDrivers.simps) simp
  next
    case True
    then have d: "drop i driverManager = driverManager ! i # drop (i + 1) driverManager"
      by (simp add: Cons_nth_drop_Suc)
    show ?thesis
    proof (cases "DCAP_RASTER (driverManager ! i) \<noteq> None \<and> DMD_EXTENSIONS (driverManager ! i) \<noteq> None")
      case both: True
      have "scanDrivers driverManager (i + 1) (scanExtensions (the (DMD_EXTENSIONS (driverManager ! i))) 0 features) =
          foldl (\<lambda>features driver. scanExtensions (the (DMD_EXTENSIONS driver)) 0 features)
            (scanExtensions (the (DMD_EXTENSIONS (driverManager ! i))) 0 features)
            (filter (\<lambda>driver. DCAP_RASTER driver \<noteq> None \<and> DMD_EXTENSIONS driver \<noteq> None) (drop (i + 1) driverManager))"
        using True both by (intro "1.IH"(1)) auto
      moreover have "scanDrivers driverManager i features =
          scanDrivers driverManager (i + 1) (scanExtensions (the (DMD_EXTENSIONS (driverManager ! i))) 0 features)"
        using True both by (subst scanDrivers.simps) (auto simp: Let_def)
      ultimately show ?thesis using both by (simp add: d)
    next
      case False
      have "scanDrivers driverManager (i + 1) features =
          foldl (\<lambda>features driver. scanExtensions (the (DMD_EXTENSIONS driver)) 0 features) features
            (filter (\<lambda>driver. DCAP_RASTER driver \<noteq> None \<and> DMD_EXTENSIONS driver \<noteq> None) (drop (i + 1) driverManager))"
        using True False by (intro "1.IH"(2)) auto
      moreover have "scanDrivers driverManager i features = scanDrivers driverManager (i + 1) features"
        using True False by (subst scanDrivers.simps) (auto simp: Let_def)
      ultimately show ?thesis using False by (auto simp: d)
    qed
  qed
qed

lemma getFeatures_declaring:
  "snd (fst (getFeatures driverManager features s)) =
     foldl (\<lambda>features driver. scanExtensions (the (DMD_EXTENSIONS driver)) 0 features) features
       (filter (\<lambda>driver. DCAP_RASTER driver \<noteq> None \<and> DMD_EXTENSIONS driver \<noteq> None) driverManager)"
  using scanDrivers_declaring [of driverManager 0 features] by (simp add: getFeatures_def Let_def)

text \<open>
  C7, as amended. The function returns true. It visits every registered driver: for a
  driver, at any index, that declares the raster capability and a string of
  extensions, every extension of the string is recorded behind one dot, its letters as
  they are declared, with the value \<open>READ_FILENAME\<close>. An extension of the string is
  \<open>ext\<close> below: it has no space and no slash, it stands at the start of the string or
  after a space or a slash, up to dots before it, and the end of the string, a space or
  a slash follows it. A driver that lacks one of the two items leaves the map as it is,
  wherever it stands in the registry: the map is the same with the driver and without
  it. When every driver lacks an item the map is unchanged, and in general the map is
  what the scans of the strings of the declaring drivers make of it, in registry order.
\<close>

theorem C7_extensions_recorded:
  "fst (fst (getFeatures driverManager features s)) = True \<and>
   (i < length driverManager \<and>
    DCAP_RASTER (driverManager ! i) \<noteq> None \<and>
    DMD_EXTENSIONS (driverManager ! i) = Some (pre @ dots @ ext @ post) \<and>
    (pre = [] \<or> last pre \<in> set '' /'') \<and>
    set dots \<subseteq> {CHR ''.''} \<and>
    ext \<noteq> [] \<and> hd ext \<noteq> CHR ''.'' \<and> set ext \<inter> set '' /'' = {} \<and>
    (post = [] \<or> hd post \<in> set '' /'')
      \<longrightarrow> extensionFeatureMap (snd (fst (getFeatures driverManager features s))) (''.'' @ ext) = Some READ_FILENAME) \<and>
   ((\<forall>driver \<in> set driverManager. DCAP_RASTER driver = None \<or> DMD_EXTENSIONS driver = None)
      \<longrightarrow> snd (fst (getFeatures driverManager features s)) = features) \<and>
   (DCAP_RASTER driver = None \<or> DMD_EXTENSIONS driver = None
      \<longrightarrow> snd (fst (getFeatures (before @ driver # after) features s)) =
            snd (fst (getFeatures (before @ after) features s))) \<and>
   snd (fst (getFeatures driverManager features s)) =
     foldl (\<lambda>features driver. scanExtensions (the (DMD_EXTENSIONS driver)) 0 features) features
       (filter (\<lambda>driver. DCAP_RASTER driver \<noteq> None \<and> DMD_EXTENSIONS driver \<noteq> None) driverManager)"
proof (intro conjI impI)
  show "fst (fst (getFeatures driverManager features s)) = True"
    by (simp add: getFeatures_def Let_def)
next
  assume a: "i < length driverManager \<and>
    DCAP_RASTER (driverManager ! i) \<noteq> None \<and>
    DMD_EXTENSIONS (driverManager ! i) = Some (pre @ dots @ ext @ post) \<and>
    (pre = [] \<or> last pre \<in> set '' /'') \<and>
    set dots \<subseteq> {CHR ''.''} \<and>
    ext \<noteq> [] \<and> hd ext \<noteq> CHR ''.'' \<and> set ext \<inter> set '' /'' = {} \<and>
    (post = [] \<or> hd post \<in> set '' /'')"
  then have "extensionFeatureMap (scanExtensions (pre @ dots @ ext @ post) 0 features') (dotPrefix @ ext)
               = Some rasterFeatureMask" for features'
    by (intro scanExtensions_reaches) simp_all
  with a have "extensionFeatureMap (scanDrivers driverManager 0 features) (dotPrefix @ ext) = Some rasterFeatureMask"
    by (intro scanDrivers_records [where k = i]) simp_all
  then show "extensionFeatureMap (snd (fst (getFeatures driverManager features s))) (''.'' @ ext) = Some READ_FILENAME"
    by (simp add: getFeatures_def Let_def dotPrefix_def rasterFeatureMask_def)
next
  assume "\<forall>driver \<in> set driverManager. DCAP_RASTER driver = None \<or> DMD_EXTENSIONS driver = None"
  then show "snd (fst (getFeatures driverManager features s)) = features"
    by (simp add: getFeatures_def Let_def scanDrivers_none)
next
  assume "DCAP_RASTER driver = None \<or> DMD_EXTENSIONS driver = None"
  then have "filter (\<lambda>driver. DCAP_RASTER driver \<noteq> None \<and> DMD_EXTENSIONS driver \<noteq> None) (before @ driver # after) =
      filter (\<lambda>driver. DCAP_RASTER driver \<noteq> None \<and> DMD_EXTENSIONS driver \<noteq> None) (before @ after)"
    by auto
  then show "snd (fst (getFeatures (before @ driver # after) features s)) =
      snd (fst (getFeatures (before @ after) features s))"
    by (simp only: getFeatures_declaring)
next
  show "snd (fst (getFeatures driverManager features s)) =
     foldl (\<lambda>features driver. scanExtensions (the (DMD_EXTENSIONS driver)) 0 features) features
       (filter (\<lambda>driver. DCAP_RASTER driver \<noteq> None \<and> DMD_EXTENSIONS driver \<noteq> None) driverManager)"
    by (rule getFeatures_declaring)
qed

theorem C7_extensions_recorded_witness:
  "[vectorDriver, exampleDriver] ! 1 = exampleDriver \<and>
   DCAP_RASTER exampleDriver = Some ''YES'' \<and>
   DMD_EXTENSIONS exampleDriver = Some (''tif '' @ ''.'' @ ''TIFF'' @ ''/png'') \<and>
   fst (fst (getFeatures [vectorDriver, exampleDriver] noFeatures exampleWorld)) = True \<and>
   extensionFeatureMap (snd (fst (getFeatures [vectorDriver, exampleDriver] noFeatures exampleWorld))) ''.TIFF'' =
     Some READ_FILENAME \<and>
   DCAP_RASTER vectorDriver = None \<and>
   snd (fst (getFeatures [vectorDriver] noFeatures exampleWorld)) = noFeatures \<and>
   snd (fst (getFeatures [exampleDriver, vectorDriver] noFeatures exampleWorld)) =
     snd (fst (getFeatures [exampleDriver] noFeatures exampleWorld)) \<and>
   extensionFeatureMap (snd (fst (getFeatures [exampleDriver, vectorDriver] noFeatures exampleWorld))) ''.shp'' = None \<and>
   snd (fst (getFeatures [exampleDriver, vectorDriver] noFeatures exampleWorld)) =
     scanExtensions ''tif .TIFF/png'' 0 noFeatures"
proof -
  have a: "[vectorDriver, exampleDriver] ! 1 = exampleDriver" by simp
  have b: "DCAP_RASTER exampleDriver = Some ''YES''" by (simp add: exampleDriver_def)
  have c: "DMD_EXTENSIONS exampleDriver = Some (''tif '' @ ''.'' @ ''TIFF'' @ ''/png'')"
    by (simp add: exampleDriver_def)
  have d: "DCAP_RASTER vectorDriver = None" by (simp add: vectorDriver_def)
  note t = C7_extensions_recorded [of "[vectorDriver, exampleDriver]" noFeatures exampleWorld 1
      "''tif ''" "''.''" "''TIFF''" "''/png''"]
  have hyp: "1 < length [vectorDriver, exampleDriver] \<and>
    DCAP_RASTER ([vectorDriver, exampleDriver] ! 1) \<noteq> None \<and>
    DMD_EXTENSIONS ([vectorDriver, exampleDriver] ! 1) = Some (''tif '' @ ''.'' @ ''TIFF'' @ ''/png'') \<and>
    (''tif '' = [] \<or> last ''tif '' \<in> set '' /'') \<and>
    set ''.'' \<subseteq> {CHR ''.''} \<and>
    ''TIFF'' \<noteq> [] \<and> hd ''TIFF'' \<noteq> CHR ''.'' \<and> set ''TIFF'' \<inter> set '' /'' = {} \<and>
    (''/png'' = [] \<or> hd ''/png'' \<in> set '' /'')"
    by (simp add: exampleDriver_def)
  from t have e: "fst (fst (getFeatures [vectorDriver, exampleDriver] noFeatures exampleWorld)) = True"
    by (rule conjunct1)
  from t [THEN conjunct2, THEN conjunct1, THEN mp, OF hyp]
  have f: "extensionFeatureMap (snd (fst (getFeatures [vectorDriver, exampleDriver] noFeatures exampleWorld))) ''.TIFF'' =
     Some READ_FILENAME"
    by simp
  have all: "\<forall>driver \<in> set [vectorDriver]. DCAP_RASTER driver = None \<or> DMD_EXTENSIONS driver = None"
    by (simp add: d)
  from C7_extensions_recorded [of "[vectorDriver]" noFeatures exampleWorld,
      THEN conjunct2, THEN conjunct2, THEN conjunct1, THEN mp, OF all]
  have g: "snd (fst (getFeatures [vectorDriver] noFeatures exampleWorld)) = noFeatures" .
  from d have lacks: "DCAP_RASTER vectorDriver = None \<or> DMD_EXTENSIONS vectorDriver = None" ..
  from C7_extensions_recorded [where driver = vectorDriver and before = "[exampleDriver]" and after = "[]"
      and features = noFeatures and s = exampleWorld,
      THEN conjunct2, THEN conjunct2, THEN conjunct2, THEN conjunct1, THEN mp, OF lacks]
  have h: "snd (fst (getFeatures [exampleDriver, vectorDriver] noFeatures exampleWorld)) =
     snd (fst (getFeatures [exampleDriver] noFeatures exampleWorld))"
    by simp
  have k: "extensionFeatureMap (snd (fst (getFeatures [exampleDriver, vectorDriver] noFeatures exampleWorld))) ''.shp'' = None"
    by code_simp
  from C7_extensions_recorded [of "[exampleDriver, vectorDriver]" noFeatures exampleWorld,
      THEN conjunct2, THEN conjunct2, THEN conjunct2, THEN conjunct2]
  have l: "snd (fst (getFeatures [exampleDriver, vectorDriver] noFeatures exampleWorld)) =
     scanExtensions ''tif .TIFF/png'' 0 noFeatures"
    by (simp add: exampleDriver_def vectorDriver_def)
  from a b c d e f g h k l show ?thesis by (intro conjI)
qed

end
